theory Spec2Isabelle
  imports Complex_Main
begin

section \<open>JavaScript numbers and dates\<close>

subsection \<open>Double-precision arithmetic\<close>

text \<open>
  A JavaScript number is an IEEE 754 double. Its value is a rational, and every arithmetic
  operation returns the exact result rounded to the nearest double, ties to the even
  significand. \<open>fl\<close> is that rounding for the normal range (53-bit significand, no overflow
  or underflow), which covers every number the cycle engine computes. A decimal literal
  such as \<open>0.3\<close> denotes \<open>fl (3/10)\<close>. Integers below \<open>2^53\<close> are doubles, so integer
  sums, differences and comparisons are written on \<open>int\<close> directly.

  Where the code divides a difference of time values by the milliseconds of a day, the
  quotient is written as the exact rational. The time value of a \<open>Date\<close> is an integer of
  magnitude at most \<open>8.64 * 10^15\<close>, so such a quotient is a whole number of days, which
  the division returns exactly, or at least \<open>10^-8\<close> away from one, and the rounding of
  the division changes neither its floor or ceiling nor its comparison with 7 or 10.
\<close>

fun ilog2 :: "nat \<Rightarrow> nat" where
  "ilog2 n = (if n < 2 then 0 else Suc (ilog2 (n div 2)))"

declare ilog2.simps [simp del]

definition binexp :: "rat \<Rightarrow> int" where
  \<comment> \<open>the exponent \<open>e\<close> with \<open>2^e \<le> x < 2^(e+1)\<close>, for \<open>x > 0\<close>\<close>
  "binexp x =
     (if 1 \<le> x then int (ilog2 (nat \<lfloor>x\<rfloor>))
      else - int (Suc (ilog2 (nat (\<lceil>1 / x\<rceil> - 1)))))"

definition roundHalfEven :: "rat \<Rightarrow> int" where
  "roundHalfEven q =
     (let f = \<lfloor>q\<rfloor>; r = q - of_int f
      in if r < 1 / 2 then f
         else if 1 / 2 < r then f + 1
         else if even f then f else f + 1)"

definition fl :: "rat \<Rightarrow> rat" where
  "fl x =
     (if x = 0 then 0
      else let ulp = 2 powi (binexp \<bar>x\<bar> - 52)
           in sgn x * of_int (roundHalfEven (\<bar>x\<bar> / ulp)) * ulp)"

definition Math_round :: "rat \<Rightarrow> int" where
  \<comment> \<open>\<open>Math.round\<close>: the nearest integer, a tie going up\<close>
  "Math_round x = \<lfloor>x + 1 / 2\<rfloor>"

definition Math_floor :: "rat \<Rightarrow> int" where
  "Math_floor x = \<lfloor>x\<rfloor>"

definition Math_ceil :: "rat \<Rightarrow> int" where
  "Math_ceil x = \<lceil>x\<rceil>"

definition Math_min :: "int list \<Rightarrow> int" where
  \<comment> \<open>\<open>Math.min(...xs)\<close>; the code calls it on lists of two or more numbers only\<close>
  "Math_min xs = Min (set xs)"

definition Math_max :: "int list \<Rightarrow> int" where
  "Math_max xs = Max (set xs)"

definition truncTowardZero :: "rat \<Rightarrow> int" where
  \<comment> \<open>truncation toward zero, the rounding the specification names for day differences\<close>
  "truncTowardZero x = (if 0 \<le> x then \<lfloor>x\<rfloor> else \<lceil>x\<rceil>)"

subsection \<open>Dates\<close>

text \<open>
  An ISO date string \<open>YYYY-MM-DD\<close> is represented by its day number: the number of days
  from \<open>1970-01-01\<close> to that calendar date in the proleptic Gregorian calendar. Valid date
  strings and day numbers correspond one to one, and \<open>ymd\<close> computes the day number of a
  date written as year, month and day, so that \<open>ymd 2024 1 1\<close> stands for the string
  \<open>2024-01-01\<close>; \<open>civil\<close> goes back from a day number to the year, month and day.

  A \<open>Date\<close> object is its time value, the milliseconds since the epoch in UTC.
  \<open>new Date(s)\<close> for a date-only string \<open>s\<close> is midnight UTC of that day (\<open>newDate\<close>), and
  \<open>toISOString().split('T')[0]\<close> is the UTC calendar day of a time value, its floor
  quotient by the milliseconds of a day.

  The runtime's time zone is a parameter: \<open>getTimezoneOffset env t\<close> is what
  \<open>getTimezoneOffset()\<close> returns for a \<open>Date\<close> with time value \<open>t\<close> (minutes, positive
  west of UTC), and \<open>utcOfLocal env w\<close> is the time value of the local wall-clock time
  \<open>w\<close>, which the local-time constructors and setters of \<open>Date\<close> use.
\<close>

type_synonym isoDate = int

type_synonym Date = int

definition ymd :: "int \<Rightarrow> int \<Rightarrow> int \<Rightarrow> isoDate" where
  "ymd y m d =
     (let y' = (if m \<le> 2 then y - 1 else y);
          era = y' div 400;
          yoe = y' - era * 400;
          doy = (153 * (if m > 2 then m - 3 else m + 9) + 2) div 5 + d - 1;
          doe = yoe * 365 + yoe div 4 - yoe div 100 + doy
      in era * 146097 + doe - 719468)"

definition msPerDay :: int where
  "msPerDay = 86400000"

definition newDate :: "isoDate \<Rightarrow> Date" where
  "newDate dateStr = dateStr * msPerDay"

record Env =
  getTimezoneOffset :: "Date \<Rightarrow> int"
  utcOfLocal :: "int \<Rightarrow> Date"

definition fixedZone :: "int \<Rightarrow> Env" where
  \<comment> \<open>a zone whose offset never changes: \<open>fixedZone 0\<close> is UTC, \<open>fixedZone 300\<close> is UTC-5,
      \<open>fixedZone (-330)\<close> is UTC+5:30\<close>
  "fixedZone off =
     \<lparr>getTimezoneOffset = (\<lambda>t. off), utcOfLocal = (\<lambda>w. w + off * 60 * 1000)\<rparr>"

definition eastOfUTC :: "Env \<Rightarrow> bool" where
  \<comment> \<open>local time is UTC or ahead of it, by less than a day\<close>
  "eastOfUTC env = (\<forall>t. - 1440 < getTimezoneOffset env t \<and> getTimezoneOffset env t \<le> 0)"


definition localTime :: "Env \<Rightarrow> Date \<Rightarrow> int" where
  "localTime env t = t - getTimezoneOffset env t * 60 * 1000"

definition localDate :: "Env \<Rightarrow> Date \<Rightarrow> isoDate" where
  \<comment> \<open>the calendar day that \<open>getFullYear()\<close>, \<open>getMonth()\<close> and \<open>getDate()\<close> read\<close>
  "localDate env t = localTime env t div msPerDay"

definition civil :: "isoDate \<Rightarrow> int \<times> int \<times> int" where
  \<comment> \<open>the year, the month (1 to 12) and the day of the month of a day number\<close>
  "civil z =
     (let z' = z + 719468;
          era = z' div 146097;
          doe = z' - era * 146097;
          yoe = (doe - doe div 1460 + doe div 36524 - doe div 146096) div 365;
          doy = doe - (365 * yoe + yoe div 4 - yoe div 100);
          mp = (5 * doy + 2) div 153;
          d = doy - (153 * mp + 2) div 5 + 1;
          m = (if mp < 10 then mp + 3 else mp - 9)
      in (if m \<le> 2 then yoe + era * 400 + 1 else yoe + era * 400, m, d))"

definition localMidnight :: "Env \<Rightarrow> int \<Rightarrow> int \<Rightarrow> int \<Rightarrow> Date" where
  \<comment> \<open>\<open>new Date(year, month - 1, day)\<close>: midnight of that day in local time; the
      constructor reads a year from 0 to 99 as \<open>1900 + year\<close>\<close>
  "localMidnight env year month day =
     utcOfLocal env (ymd (if 0 \<le> year \<and> year \<le> 99 then 1900 + year else year) month day * msPerDay)"

definition addLocalDays :: "Env \<Rightarrow> Date \<Rightarrow> int \<Rightarrow> Date" where
  \<comment> \<open>\<open>d = new Date(t); d.setDate(t.getDate() + n)\<close>: the local day of the month moves by
      \<open>n\<close>, the local time of day stays\<close>
  "addLocalDays env t n = utcOfLocal env (localTime env t + n * msPerDay)"

definition formatDateISO :: "Env \<Rightarrow> Date \<Rightarrow> isoDate" where
  "formatDateISO env date =
     (let offset = getTimezoneOffset env date;
          adjustedDate = date - offset * 60 * 1000
      in adjustedDate div msPerDay)"

definition diffDays :: "isoDate \<Rightarrow> isoDate \<Rightarrow> int" where
  "diffDays date1Str date2Str =
     (let d1 = newDate date1Str;
          d2 = newDate date2Str;
          diffTime = \<bar>d2 - d1\<bar>
      in Math_ceil (of_int diffTime / (1000 * 60 * 60 * 24)))"

definition diffDaysBetween :: "isoDate \<Rightarrow> isoDate \<Rightarrow> int" where
  "diffDaysBetween d1 d2 =
     Math_floor (of_int (newDate d2 - newDate d1) / (1000 * 3600 * 24))"

section \<open>The data model\<close>

text \<open>
  \<open>DailyLog\<close> and \<open>Cycle\<close> of the type declarations. The cycle engine reads the date and
  the flow of a log only; the other fields of a log (moods, symptoms, metrics, notes) and
  the optional \<open>endDate\<close> of a cycle, which the engine never sets, are left to the
  records' extension. An absent or \<open>null\<close> flow is \<open>None\<close>. The \<open>length\<close> field of a cycle
  is \<open>lengthDays\<close> here.
\<close>

datatype FlowIntensity = Light | Medium | Heavy | Spotting

record DailyLog =
  date :: isoDate
  flow :: "FlowIntensity option"

record Cycle =
  startDate :: isoDate
  lengthDays :: int

record UserSettings =
  avgCycleLength :: int
  avgPeriodLength :: int

section \<open>Smart cycle average and regularity\<close>

definition calculateSmartCycleAverage :: "Cycle list \<Rightarrow> int \<Rightarrow> int" where
  "calculateSmartCycleAverage history userDefault =
     (let completedCycles = drop 1 history;
          validCycles = filter (\<lambda>c. 21 \<le> lengthDays c \<and> lengthDays c \<le> 45) completedCycles
      in if length validCycles = 0 then userDefault
         else if length validCycles < 3 then
           (let sum = foldl (\<lambda>acc c. acc + lengthDays c) 0 validCycles
            in Math_round (fl (of_int sum / of_int (int (length validCycles)))))
         else
           (let recent = take 3 validCycles;
                w1 = fl (1 / 2);
                w2 = fl (3 / 10);
                w3 = fl (1 / 5);
                weightedSum =
                  fl (fl (fl (of_int (lengthDays (recent ! 0)) * w1)
                          + fl (of_int (lengthDays (recent ! 1)) * w2))
                      + fl (of_int (lengthDays (recent ! 2)) * w3))
            in Math_round weightedSum))"

definition validCompleted :: "Cycle list \<Rightarrow> Cycle list" where
  \<comment> \<open>the valid completed cycles of a history: all but the cycle at index 0, with a length
      in 21..45, in list order\<close>
  "validCompleted history =
     filter (\<lambda>c. 21 \<le> lengthDays c \<and> lengthDays c \<le> 45) (drop 1 history)"

definition getCycleRegularity :: "Cycle list \<Rightarrow> int" where
  "getCycleRegularity cycles =
     (if length cycles < 4 then 100
      else
        (let completedLengths =
               filter (\<lambda>l. 21 \<le> l \<and> l \<le> 45) (map lengthDays (take 6 (drop 1 cycles)))
         in if length completedLengths < 2 then 100
            else
              (let mn = Math_min completedLengths;
                   mx = Math_max completedLengths;
                   variation = mx - mn
               in if variation \<le> 2 then 100
                  else if variation \<le> 4 then 80
                  else if variation \<le> 7 then 60
                  else if variation \<le> 10 then 40
                  else 20)))"

definition regularityStep :: "int \<Rightarrow> int" where
  \<comment> \<open>the step function of the specification's regularity score\<close>
  "regularityStep variation =
     (if variation \<le> 2 then 100
      else if variation \<le> 4 then 80
      else if variation \<le> 7 then 60
      else if variation \<le> 10 then 40
      else 20)"

section \<open>The cycle segmenter\<close>

text \<open>
  \<open>analyzeCyclesFromLogs\<close> of \<open>utils/dateUtils.ts\<close>. The loop over the sorted flow logs is
  \<open>segmentLoop\<close>: its state is the cycles pushed so far, the start of the open cycle and
  the date of the last flow log, and it returns the first two. \<open>Array.prototype.sort\<close> is
  stable, as \<open>sort_key\<close> is.
\<close>

definition isFlowLog :: "DailyLog \<Rightarrow> bool" where
  \<comment> \<open>\<open>l.flow && l.flow !== 'Spotting'\<close>\<close>
  "isFlowLog l = (flow l \<noteq> None \<and> flow l \<noteq> Some Spotting)"

fun segmentLoop :: "Env \<Rightarrow> DailyLog list \<Rightarrow> Date \<Rightarrow> Date \<Rightarrow> Cycle list \<Rightarrow> Cycle list \<times> Date" where
  "segmentLoop env [] currentCycleStart lastFlowLogDate cycles = (cycles, currentCycleStart)"
| "segmentLoop env (l # ls) currentCycleStart lastFlowLogDate cycles =
     (let currentLogDate = newDate (date l);
          diffDays = (of_int (currentLogDate - lastFlowLogDate) :: rat) / (1000 * 3600 * 24)
      in if diffDays > 7 then
           (let prevCycleStartISO = formatDateISO env currentCycleStart;
                thisCycleStartISO = formatDateISO env currentLogDate;
                cycleLength = diffDaysBetween prevCycleStartISO thisCycleStartISO
            in segmentLoop env ls currentLogDate currentLogDate
                 (cycles @ [\<lparr>startDate = prevCycleStartISO, lengthDays = cycleLength\<rparr>]))
         else segmentLoop env ls currentCycleStart currentLogDate cycles)"

definition analyzeCyclesFromLogs :: "Env \<Rightarrow> DailyLog list \<Rightarrow> int \<Rightarrow> Cycle list" where
  "analyzeCyclesFromLogs env logs defaultCycleLen =
     (let flowLogs = sort_key (\<lambda>l. newDate (date l)) (filter isFlowLog logs)
      in case flowLogs of
           [] \<Rightarrow> []
         | l0 # rest \<Rightarrow>
             (let (cycles, currentCycleStart) =
                    segmentLoop env rest (newDate (date l0)) (newDate (date l0)) []
              in rev (cycles @
                   [\<lparr>startDate = formatDateISO env currentCycleStart,
                     lengthDays = defaultCycleLen\<rparr>])))"

text \<open>
  The specification describes the same scan by its outcome. \<open>flowDays\<close> are the days of
  the flow-positive logs in ascending order, one entry for each such log, and
  \<open>cycleStarts\<close> are the days on which a cycle begins: the first flow day, and every flow
  day that lies 8 or more days after the flow day before it.
\<close>

definition flowDays :: "DailyLog list \<Rightarrow> isoDate list" where
  "flowDays logs = sort (map date (filter isFlowLog logs))"

definition cycleStarts :: "isoDate list \<Rightarrow> isoDate list" where
  "cycleStarts ds =
     (case ds of
        [] \<Rightarrow> []
      | d # rest \<Rightarrow> d # map snd (filter (\<lambda>(a, b). 8 \<le> b - a) (zip ds rest)))"

text \<open>
  The repository holds a second, older \<open>analyzeCyclesFromLogs\<close> (source file
  \<open>part_006\<close>): the same scan with a boundary of ten days, and the length of a closed
  cycle taken from the time values with \<open>Math.ceil\<close>.
\<close>

fun segmentLoop_part006 :: "Env \<Rightarrow> DailyLog list \<Rightarrow> Date \<Rightarrow> Date \<Rightarrow> Cycle list \<Rightarrow> Cycle list \<times> Date" where
  "segmentLoop_part006 env [] currentPeriodStart lastFlowDate cycles = (cycles, currentPeriodStart)"
| "segmentLoop_part006 env (l # ls) currentPeriodStart lastFlowDate cycles =
     (let currentLogDate = newDate (date l);
          diff = (of_int (currentLogDate - lastFlowDate) :: rat) / (1000 * 3600 * 24)
      in if diff > 10 then
           (let cycleLen = Math_ceil (of_int (currentLogDate - currentPeriodStart) / (1000 * 3600 * 24))
            in segmentLoop_part006 env ls currentLogDate currentLogDate
                 (cycles @ [\<lparr>startDate = formatDateISO env currentPeriodStart, lengthDays = cycleLen\<rparr>]))
         else segmentLoop_part006 env ls currentPeriodStart currentLogDate cycles)"

definition analyzeCyclesFromLogs_part006 :: "Env \<Rightarrow> DailyLog list \<Rightarrow> int \<Rightarrow> Cycle list" where
  "analyzeCyclesFromLogs_part006 env logs defaultCycleLen =
     (let flowLogs = sort_key (\<lambda>l. newDate (date l)) (filter isFlowLog logs)
      in case flowLogs of
           [] \<Rightarrow> []
         | l0 # rest \<Rightarrow>
             (let (cycles, currentPeriodStart) =
                    segmentLoop_part006 env rest (newDate (date l0)) (newDate (date l0)) []
              in rev (cycles @
                   [\<lparr>startDate = formatDateISO env currentPeriodStart,
                     lengthDays = defaultCycleLen\<rparr>])))"

section \<open>The calendar projector\<close>

text \<open>
  \<open>predictionData\<close> of \<open>components/CalendarView.tsx\<close>. The \<open>Map\<close> from ISO date strings to
  markers is a partial function; the three loops are folds over their index ranges.
\<close>

record Marker =
  isProjectedPeriod :: bool
  isFertile :: bool
  isOvulationDay :: bool

type_synonym PredictionMap = "isoDate \<rightharpoonup> Marker"

definition markPeriod :: "Env \<Rightarrow> Date \<Rightarrow> int \<Rightarrow> PredictionMap \<Rightarrow> PredictionMap" where
  "markPeriod env nextStart i m =
     (let pDay = addLocalDays env nextStart i;
          iso = formatDateISO env pDay
      in m(iso \<mapsto> \<lparr>isProjectedPeriod = True, isFertile = False, isOvulationDay = False\<rparr>))"

definition markFertile :: "Env \<Rightarrow> Date \<Rightarrow> int \<Rightarrow> PredictionMap \<Rightarrow> PredictionMap" where
  "markFertile env ovulationDate ofs m =
     (let fDay = addLocalDays env ovulationDate ofs;
          iso = formatDateISO env fDay;
          isOvulationDay = (ofs = 0);
          existing = m iso
      in if \<not> (case existing of None \<Rightarrow> False | Some e \<Rightarrow> isProjectedPeriod e) then
           m(iso \<mapsto> \<lparr>isProjectedPeriod = False, isFertile = True, isOvulationDay = isOvulationDay\<rparr>)
         else m)"

definition projectCycle :: "Env \<Rightarrow> Date \<Rightarrow> int \<Rightarrow> int \<Rightarrow> int \<Rightarrow> PredictionMap \<Rightarrow> PredictionMap" where
  "projectCycle env latestStart smartLength periodLen c m =
     (let nextStart = addLocalDays env latestStart (smartLength * c);
          m1 = fold (markPeriod env nextStart) [0..periodLen - 1] m;
          nextCycleStart = nextStart;
          ovulationDate = addLocalDays env nextCycleStart (- 14)
      in fold (markFertile env ovulationDate) [- 5..1] m1)"

definition predictionData :: "Env \<Rightarrow> Cycle list \<Rightarrow> UserSettings \<Rightarrow> PredictionMap \<times> int" where
  "predictionData env cycles settings =
     (let smartLength = calculateSmartCycleAverage cycles (avgCycleLength settings);
          periodLen = (if avgPeriodLength settings = 0 then 5 else avgPeriodLength settings);
          m = (if length cycles > 0 then
                 (let latestStart = newDate (startDate (cycles ! 0))
                  in fold (projectCycle env latestStart smartLength periodLen) [1..12] Map.empty)
               else Map.empty)
      in (m, smartLength))"

definition exclusive :: "PredictionMap \<Rightarrow> bool" where
  \<comment> \<open>no date marked as projected period is flagged fertile or as the ovulation day\<close>
  "exclusive m =
     (\<forall>day e. m day = Some e \<longrightarrow> isProjectedPeriod e \<longrightarrow> \<not> isFertile e \<and> \<not> isOvulationDay e)"

section \<open>The phase classifier\<close>

text \<open>
  The status computation of \<open>components/CycleWheel.tsx\<close>. \<open>wheelStatus\<close> is the part from
  \<open>daysDiff\<close> on; \<open>cycleWheel\<close> computes \<open>daysDiff\<close> from the two local midnights and calls
  it. The sub-text under the status is kept as a value with the number it prints.
\<close>

datatype SubText =
  StartsIn int | DaysLate int | DayNumber int | HighChance | DaysUntilPeriod int

record WheelStatus =
  isFuture :: bool
  cycleDay :: int
  daysLeft :: int
  statusText :: string
  subText :: SubText

definition wheelStatus :: "int \<Rightarrow> int \<Rightarrow> int \<Rightarrow> WheelStatus" where
  "wheelStatus daysDiff cycleLen periodLen =
     (let isFuture = daysDiff < 0;
          cycleDay = (if isFuture then 1 else max 1 (daysDiff + 1));
          daysLeft = cycleLen - cycleDay;
          isPeriod = cycleDay \<le> periodLen;
          ovulationDay = cycleLen - 14;
          isOvulationWindow = \<bar>cycleDay - ovulationDay\<bar> \<le> 2;
          isLuteal = cycleDay > ovulationDay + 2;
          (statusText, subText) =
            (if isFuture then (''Not Started'', StartsIn \<bar>daysDiff\<bar>)
             else if daysLeft < 0 then (''Late'', DaysLate \<bar>daysLeft\<bar>)
             else if isPeriod then (''Menstruation'', DayNumber cycleDay)
             else if isOvulationWindow then (''Fertile Window'', HighChance)
             else if isLuteal then (''Luteal Phase'', DaysUntilPeriod daysLeft)
             else (''Follicular Phase'', DayNumber cycleDay))
      in \<lparr>isFuture = isFuture, cycleDay = cycleDay, daysLeft = daysLeft,
          statusText = statusText, subText = subText\<rparr>)"

definition cycleWheel :: "Env \<Rightarrow> Date \<Rightarrow> isoDate option \<Rightarrow> UserSettings \<Rightarrow> Cycle list \<Rightarrow> WheelStatus" where
  \<comment> \<open>\<open>today\<close> is the time value of \<open>new Date()\<close>; the start date is \<open>None\<close> when
      \<open>latestCycle.startDate\<close> is empty; \<open>split('-').map(Number)\<close> of a date string is
      its year, month and day, which \<open>civil\<close> reads off the day number\<close>
  "cycleWheel env today latestStartDate settings cycles =
     (let dynamicLength = calculateSmartCycleAverage cycles (avgCycleLength settings);
          cycleLen = dynamicLength;
          periodLen = (if avgPeriodLength settings = 0 then 5 else avgPeriodLength settings);
          (todayYear, todayMonth, todayDay) = civil (localDate env today);
          todayMidnight = localMidnight env todayYear todayMonth todayDay;
          (startYear, startMonth, startDay) =
            (case latestStartDate of
               Some s \<Rightarrow> civil s
             | None \<Rightarrow> (todayYear, todayMonth, todayDay));
          startMidnight = localMidnight env startYear startMonth startDay;
          diffTime = todayMidnight - startMidnight;
          daysDiff = Math_floor (of_int diffTime / (1000 * 60 * 60 * 24))
      in wheelStatus daysDiff cycleLen periodLen)"

section \<open>Rounding to doubles\<close>

lemma ilog2_bounds: "0 < n \<Longrightarrow> 2 ^ ilog2 n \<le> n \<and> n < 2 ^ Suc (ilog2 n)"
proof (induction n rule: ilog2.induct)
  case (1 n)
  show ?case
  proof (cases "n < 2")
    case True
    with "1.prems" have "n = 1" by simp
    then show ?thesis by (simp add: ilog2.simps)
  next
    case False
    then have pos: "0 < n div 2" by simp
    from "1.IH" [OF False pos]
    have ih: "2 ^ ilog2 (n div 2) \<le> n div 2" "n div 2 < 2 ^ Suc (ilog2 (n div 2))" by simp_all
    have eq: "ilog2 n = Suc (ilog2 (n div 2))" using False by (subst ilog2.simps) simp
    from ih show ?thesis unfolding eq by (simp; arith)
  qed
qed

lemma ilog2_less: "0 < n \<Longrightarrow> n < 2 ^ k \<Longrightarrow> ilog2 n < k"
proof -
  assume a: "0 < n" "n < 2 ^ k"
  have b: "(2::nat) ^ ilog2 n \<le> n" using ilog2_bounds [OF a(1)] by simp
  have "(2::nat) ^ ilog2 n < 2 ^ k" by (rule le_less_trans [OF b a(2)])
  then show ?thesis by (simp add: power_strict_increasing_iff)
qed

lemma roundHalfEven_error: "\<bar>of_int (roundHalfEven q) - q\<bar> \<le> 1 / 2"
proof -
  define f where "f = \<lfloor>q\<rfloor>"
  have b: "of_int f \<le> q" "q < of_int f + 1" unfolding f_def by linarith+
  consider (lo) "q - of_int f < 1 / 2" | (hi) "1 / 2 < q - of_int f" | (tie) "q - of_int f = 1 / 2"
    by linarith
  then show ?thesis
  proof cases
    case lo
    then have "roundHalfEven q = f" by (simp add: roundHalfEven_def f_def)
    with lo b show ?thesis by simp
  next
    case hi
    then have "roundHalfEven q = f + 1" by (simp add: roundHalfEven_def f_def)
    with hi b show ?thesis by simp
  next
    case tie
    then have "roundHalfEven q = f \<or> roundHalfEven q = f + 1"
      by (simp add: roundHalfEven_def f_def Let_def)
    with tie b show ?thesis by auto
  qed
qed

lemma roundHalfEven_of_int: "roundHalfEven (of_int n) = n"
  by (simp add: roundHalfEven_def)

lemma ulp_small:
  assumes "k \<le> 52"
  shows "(2::rat) powi (int k - 52) = 1 / 2 ^ (52 - k)"
proof -
  have "int k - 52 = - int (52 - k)" using assms by simp
  then have "(2::rat) powi (int k - 52) = inverse (2 powi int (52 - k))"
    by (simp only: power_int_minus)
  then show ?thesis by (simp add: inverse_eq_divide)
qed

lemma fl_of_range:
  assumes "1 \<le> x" "x < 64"
  shows "\<exists>k\<le>5. fl x = of_int (roundHalfEven (x * 2 ^ (52 - k))) / 2 ^ (52 - k)"
proof -
  define n where "n = nat \<lfloor>x\<rfloor>"
  have n: "0 < n" "n < 2 ^ 6" using assms unfolding n_def by (simp_all add: floor_less_iff nat_less_iff)
  define k where "k = ilog2 n"
  have k: "k \<le> 5" using ilog2_less [OF n] unfolding k_def by simp
  have be: "binexp \<bar>x\<bar> = int k" using assms unfolding binexp_def k_def n_def by simp
  have u: "(2::rat) powi (int k - 52) = 1 / 2 ^ (52 - k)" using k by (intro ulp_small) simp
  have "fl x = of_int (roundHalfEven (x * 2 ^ (52 - k))) / 2 ^ (52 - k)"
    using assms unfolding fl_def be u Let_def by simp
  with k show ?thesis by blast
qed

lemma fl_error:
  assumes "1 \<le> x" "x < 64"
  shows "\<bar>fl x - x\<bar> \<le> 1 / 2 ^ 48"
proof -
  from fl_of_range [OF assms] obtain k where k: "k \<le> 5"
    and f: "fl x = of_int (roundHalfEven (x * 2 ^ (52 - k))) / 2 ^ (52 - k)" by blast
  define p :: rat where "p = 2 ^ (52 - k)"
  have p: "2 ^ 47 \<le> p" unfolding p_def using k by (intro power_increasing) simp_all
  have pos: "0 < p" unfolding p_def by simp
  have e: "\<bar>of_int (roundHalfEven (x * p)) - x * p\<bar> \<le> 1 / 2" by (rule roundHalfEven_error)
  have "fl x - x = (of_int (roundHalfEven (x * p)) - x * p) / p"
    using pos unfolding f p_def [symmetric] by (simp add: field_simps)
  then have "\<bar>fl x - x\<bar> = \<bar>of_int (roundHalfEven (x * p)) - x * p\<bar> / p"
    using pos by (simp add: abs_divide)
  also have "\<dots> \<le> (1 / 2) / p" using pos by (intro divide_right_mono [OF e]) simp
  also have "\<dots> \<le> (1 / 2) / 2 ^ 47" using p pos by (intro divide_left_mono) simp_all
  finally show ?thesis by simp
qed

lemma fl_half_int:
  assumes "2 \<le> n" "n < 128"
  shows "fl (of_int n / 2) = of_int n / 2"
proof -
  have r: "1 \<le> (of_int n / 2 :: rat)" "(of_int n / 2 :: rat) < 64" using assms by simp_all
  from fl_of_range [OF r] obtain k where k: "k \<le> 5"
    and f: "fl (of_int n / 2) = of_int (roundHalfEven (of_int n / 2 * 2 ^ (52 - k))) / 2 ^ (52 - k)"
    by blast
  have s: "52 - k = Suc (51 - k)" using k by simp
  have h: "(of_int n / 2 :: rat) * 2 ^ (52 - k) = of_int (n * 2 ^ (51 - k))"
    unfolding s by simp
  have "fl (of_int n / 2) = of_int (n * 2 ^ (51 - k)) / 2 ^ (52 - k)"
    unfolding f h roundHalfEven_of_int ..
  also have "\<dots> = of_int n / 2" unfolding s by simp
  finally show ?thesis .
qed

text \<open>The doubles that the literals \<open>0.5\<close>, \<open>0.3\<close> and \<open>0.2\<close> denote.\<close>

lemma fl_half: "fl (1 / 2) = 1 / 2"
  by code_simp

lemma fl_three_tenths: "fl (3 / 10) = 5404319552844595 / 18014398509481984"
  by code_simp

lemma fl_one_fifth: "fl (1 / 5) = 3602879701896397 / 18014398509481984"
  by code_simp

lemma abs_small:
  fixes u v :: rat
  assumes "\<bar>u - v\<bar> \<le> 1 / 2 ^ 48"
  shows "v - 1 / 100000000000000 \<le> u" "u \<le> v + 1 / 100000000000000"
proof -
  have c: "(1::rat) / 2 ^ 48 \<le> 1 / 100000000000000" by simp
  have "u - v \<le> 1 / 2 ^ 48" "- (u - v) \<le> 1 / 2 ^ 48"
    using abs_le_D1 [OF assms] abs_le_D2 [OF assms] by blast+
  with c show "v - 1 / 100000000000000 \<le> u" "u \<le> v + 1 / 100000000000000" by linarith+
qed

lemma weighted_error:
  fixes a b c :: int
  assumes "21 \<le> a" "a \<le> 45" "21 \<le> b" "b \<le> 45" "21 \<le> c" "c \<le> 45"
  shows "\<bar>fl (fl (fl (of_int a * fl (1 / 2)) + fl (of_int b * fl (3 / 10)))
              + fl (of_int c * fl (1 / 5)))
          - (of_int a / 2 + 3 * of_int b / 10 + of_int c / 5)\<bar> \<le> 1 / 1000"
proof -
  define A :: rat where "A = of_int a"
  define B :: rat where "B = of_int b"
  define C :: rat where "C = of_int c"
  have ra: "21 \<le> A" "A \<le> 45" and rb: "21 \<le> B" "B \<le> 45" and rc: "21 \<le> C" "C \<le> 45"
    using assms unfolding A_def B_def C_def by simp_all
  define p1 where "p1 = fl (A * fl (1 / 2))"
  define x2 where "x2 = B * (5404319552844595 / 18014398509481984)"
  define p2 where "p2 = fl x2"
  define x3 where "x3 = C * (3602879701896397 / 18014398509481984)"
  define p3 where "p3 = fl x3"
  define s1 where "s1 = fl (p1 + p2)"
  define w where "w = fl (s1 + p3)"
  have p1: "p1 = A / 2"
    unfolding p1_def fl_half A_def using fl_half_int [of a] assms by simp
  have x2: "3 * B / 10 - 1 / 100000000000000 \<le> x2" "x2 \<le> 3 * B / 10"
    unfolding x2_def using rb by simp_all
  have x3: "C / 5 \<le> x3" "x3 \<le> C / 5 + 1 / 100000000000000"
    unfolding x3_def using rc by simp_all
  have e2: "\<bar>p2 - x2\<bar> \<le> 1 / 2 ^ 48"
    unfolding p2_def using x2 rb by (intro fl_error) simp_all
  have e3: "\<bar>p3 - x3\<bar> \<le> 1 / 2 ^ 48"
    unfolding p3_def using x3 rc by (intro fl_error) simp_all
  have b2: "x2 - 1 / 100000000000000 \<le> p2" "p2 \<le> x2 + 1 / 100000000000000"
    using abs_small [OF e2] by blast+
  have b3: "x3 - 1 / 100000000000000 \<le> p3" "p3 \<le> x3 + 1 / 100000000000000"
    using abs_small [OF e3] by blast+
  have e4: "\<bar>s1 - (p1 + p2)\<bar> \<le> 1 / 2 ^ 48"
    unfolding s1_def using p1 ra rb x2 b2 by (intro fl_error) simp_all
  have b4: "p1 + p2 - 1 / 100000000000000 \<le> s1" "s1 \<le> p1 + p2 + 1 / 100000000000000"
    using abs_small [OF e4] by blast+
  have e5: "\<bar>w - (s1 + p3)\<bar> \<le> 1 / 2 ^ 48"
    unfolding w_def using p1 ra rb rc x2 x3 b2 b3 b4 by (intro fl_error) simp_all
  have b5: "s1 + p3 - 1 / 100000000000000 \<le> w" "w \<le> s1 + p3 + 1 / 100000000000000"
    using abs_small [OF e5] by blast+
  have lo: "w - (A / 2 + 3 * B / 10 + C / 5) \<le> 1 / 1000"
    using p1 x2 x3 b2 b3 b4 b5 by linarith
  have hi: "- (w - (A / 2 + 3 * B / 10 + C / 5)) \<le> 1 / 1000"
    using p1 x2 x3 b2 b3 b4 b5 by linarith
  have "\<bar>w - (A / 2 + 3 * B / 10 + C / 5)\<bar> \<le> 1 / 1000"
    by (rule abs_leI [OF lo hi])
  then show ?thesis
    unfolding w_def s1_def p3_def p2_def p1_def x2_def x3_def A_def B_def C_def
      fl_three_tenths fl_one_fifth .
qed

section \<open>Day differences\<close>

lemma newDate_diff: "newDate d2 - newDate d1 = (d2 - d1) * 86400000"
  by (simp add: newDate_def msPerDay_def algebra_simps)

lemma floor_day_quotient: "\<lfloor>(of_int (k * 86400000) :: rat) / 86400000\<rfloor> = k"
  by simp

lemma ceiling_day_quotient: "\<lceil>(of_int (k * 86400000) :: rat) / 86400000\<rceil> = k"
  by simp

lemma diffDaysBetween_eq: "diffDaysBetween d1 d2 = d2 - d1"
  unfolding diffDaysBetween_def Math_floor_def newDate_diff
  using floor_day_quotient [of "d2 - d1"] by simp

text \<open>
  The exported \<open>diffDays\<close> is the other day-difference helper of the file: it takes the
  absolute value, so it is the unsigned distance of the two days. The segmenter does not
  call it.
\<close>

lemma diffDays_abs: "diffDays d1 d2 = \<bar>d2 - d1\<bar>"
proof -
  have "\<bar>newDate d2 - newDate d1\<bar> = \<bar>d2 - d1\<bar> * 86400000"
    by (simp only: newDate_diff abs_mult abs_numeral)
  then show ?thesis
    unfolding diffDays_def Math_ceil_def Let_def
    using ceiling_day_quotient [of "\<bar>d2 - d1\<bar>"] by simp
qed

text \<open>
  Claim C5. For two valid ISO date strings, \<open>diffDaysBetween d1 d2\<close> is the signed number
  of whole days from \<open>d1\<close> to \<open>d2\<close>: the day number of \<open>d2\<close> minus that of \<open>d1\<close>. It is
  the quotient of the two time values' difference by the milliseconds of a day truncated
  toward zero (both time values are midnights UTC, so the quotient is whole and the
  \<open>Math.floor\<close> of the code truncates nothing), and it changes sign when the arguments
  are swapped, so no absolute value is taken.
\<close>

theorem diffDaysBetween_signed:
  "diffDaysBetween d1 d2 = d2 - d1
   \<and> diffDaysBetween d1 d2 = truncTowardZero (of_int (newDate d2 - newDate d1) / of_int msPerDay)
   \<and> diffDaysBetween d2 d1 = - diffDaysBetween d1 d2"
proof -
  have "truncTowardZero (of_int (newDate d2 - newDate d1) / of_int msPerDay) = d2 - d1"
    unfolding truncTowardZero_def msPerDay_def newDate_diff
    using floor_day_quotient [of "d2 - d1"] ceiling_day_quotient [of "d2 - d1"]
    by (simp del: of_int_diff of_int_mult)
  then show ?thesis by (simp add: diffDaysBetween_eq)
qed

section \<open>The smart cycle average\<close>

lemma validCompleted_range:
  "x \<in> set (validCompleted h) \<Longrightarrow> 21 \<le> lengthDays x \<and> lengthDays x \<le> 45"
  by (simp add: validCompleted_def)

lemma smart_none: "validCompleted h = [] \<Longrightarrow> calculateSmartCycleAverage h d = d"
  by (simp add: calculateSmartCycleAverage_def validCompleted_def)

lemma smart_mean:
  assumes "validCompleted h = v" "v \<noteq> []" "length v < 3"
  shows "calculateSmartCycleAverage h d =
           Math_round (fl (of_int (foldl (\<lambda>acc c. acc + lengthDays c) 0 v) / of_int (int (length v))))"
  using assms by (simp add: calculateSmartCycleAverage_def validCompleted_def Let_def)

lemma Math_round_of_int: "Math_round (of_int n) = n"
  unfolding Math_round_def by (rule floor_unique) simp_all

lemma smart_one:
  assumes "validCompleted h = [x]"
  shows "calculateSmartCycleAverage h d = lengthDays x"
proof -
  have r: "21 \<le> lengthDays x" "lengthDays x \<le> 45"
    using validCompleted_range [of x h] assms by simp_all
  have "fl (of_int (2 * lengthDays x) / 2) = of_int (2 * lengthDays x) / 2"
    using r by (intro fl_half_int) simp_all
  then have e: "fl (of_int (lengthDays x)) = of_int (lengthDays x)" by simp
  have m: "calculateSmartCycleAverage h d = Math_round (fl (of_int (lengthDays x)))"
    using smart_mean [OF assms, of d] by simp
  show ?thesis unfolding m e by (rule Math_round_of_int)
qed

lemma smart_two:
  assumes "validCompleted h = [x, y]"
  shows "calculateSmartCycleAverage h d = Math_round (of_int (lengthDays x + lengthDays y) / 2)"
proof -
  have r: "21 \<le> lengthDays x" "lengthDays x \<le> 45" "21 \<le> lengthDays y" "lengthDays y \<le> 45"
    using validCompleted_range [of x h] validCompleted_range [of y h] assms by simp_all
  have e: "fl (of_int (lengthDays x + lengthDays y) / 2) = of_int (lengthDays x + lengthDays y) / 2"
    using r by (intro fl_half_int) simp_all
  have m: "calculateSmartCycleAverage h d = Math_round (fl (of_int (lengthDays x + lengthDays y) / 2))"
    using smart_mean [OF assms, of d] by (simp del: of_int_add)
  show ?thesis unfolding m e ..
qed

lemma smart_three:
  assumes "validCompleted h = x # y # z # rest"
  shows "calculateSmartCycleAverage h d =
           Math_round (fl (fl (fl (of_int (lengthDays x) * fl (1 / 2))
                                + fl (of_int (lengthDays y) * fl (3 / 10)))
                            + fl (of_int (lengthDays z) * fl (1 / 5))))"
  using assms by (simp add: calculateSmartCycleAverage_def validCompleted_def Let_def)

lemma nearest_tenth:
  fixes r k :: int
  assumes "10 * r \<le> k + 5" "k - 5 \<le> 10 * r" "k mod 10 \<noteq> 5"
  shows "r = (k + 5) div 10"
proof -
  define q where "q = (k + 5) div 10"
  define m where "m = (k + 5) mod 10"
  have d: "k + 5 = 10 * q + m" unfolding q_def m_def by simp
  have m: "0 \<le> m" "m < 10" unfolding m_def by simp_all
  have "m \<noteq> 0"
  proof
    assume "m = 0"
    with d have "k = 5 + 10 * (q - 1)" by simp
    then have "k mod 10 = 5" by (simp only: mod_mult_self2) simp
    with assms(3) show False by simp
  qed
  with m d assms(1,2) have "r = q" by linarith
  then show ?thesis unfolding q_def .
qed

lemma round_near:
  fixes w :: rat and k :: int
  assumes "\<bar>w - of_int k / 10\<bar> \<le> 1 / 1000"
  shows "\<bar>of_int (Math_round w) - (of_int k / 10 :: rat)\<bar> \<le> 1 / 2"
    and "k mod 10 \<noteq> 5 \<Longrightarrow> Math_round w = Math_round (of_int k / 10)"
proof -
  define r where "r = Math_round w"
  define R :: rat where "R = of_int r"
  define K :: rat where "K = of_int k"
  have f: "R \<le> w + 1 / 2" "w + 1 / 2 < R + 1"
    unfolding R_def r_def Math_round_def by linarith+
  have lo: "K / 10 - 1 / 1000 \<le> w" and hi: "w \<le> K / 10 + 1 / 1000"
    using abs_le_D1 [OF assms] abs_le_D2 [OF assms] unfolding K_def by linarith+
  have "10 * R < K + 6" "K - 6 < 10 * R"
    using f lo hi by linarith+
  then have "(of_int (10 * r) :: rat) < of_int (k + 6)" "(of_int (k - 6) :: rat) < of_int (10 * r)"
    unfolding R_def K_def by simp_all
  then have i: "10 * r < k + 6" "k - 6 < 10 * r" by (simp_all only: of_int_less_iff)
  then have j: "10 * r \<le> k + 5" "k - 5 \<le> 10 * r" by linarith+
  then have "(of_int (10 * r) :: rat) \<le> of_int (k + 5)" "(of_int (k - 5) :: rat) \<le> of_int (10 * r)"
    by (simp_all only: of_int_le_iff)
  then have "10 * R \<le> K + 5" "K - 5 \<le> 10 * R" unfolding R_def K_def by simp_all
  then have "R - K / 10 \<le> 1 / 2" "- (R - K / 10) \<le> 1 / 2" by linarith+
  then show "\<bar>of_int (Math_round w) - (of_int k / 10 :: rat)\<bar> \<le> 1 / 2"
    unfolding r_def [symmetric] R_def [symmetric] K_def [symmetric] by (rule abs_leI)
  assume n5: "k mod 10 \<noteq> 5"
  have "Math_round (of_int k / 10) = (k + 5) div 10"
  proof -
    have "(of_int k / 10 + 1 / 2 :: rat) = of_int (k + 5) / of_int 10" by simp
    then show ?thesis unfolding Math_round_def by (simp only: floor_divide_of_int_eq)
  qed
  moreover have "r = (k + 5) div 10" by (rule nearest_tenth [OF j n5])
  ultimately show "Math_round w = Math_round (of_int k / 10)" unfolding r_def by simp
qed

lemma smart_cong:
  "validCompleted h = validCompleted h' \<Longrightarrow>
   calculateSmartCycleAverage h d = calculateSmartCycleAverage h' d"
  by (simp add: calculateSmartCycleAverage_def validCompleted_def)

lemma validCompleted_idem: "validCompleted (take 1 h @ validCompleted h) = validCompleted h"
  by (cases h) (simp_all add: validCompleted_def)

lemma Math_round_bounds:
  fixes w :: rat
  assumes "of_int lo - 1 / 2 \<le> w" "w < of_int hi + 1 / 2"
  shows "lo \<le> Math_round w \<and> Math_round w \<le> hi"
proof -
  have "of_int lo \<le> w + 1 / 2" using assms(1) by linarith
  then have a: "lo \<le> \<lfloor>w + 1 / 2\<rfloor>" by (simp only: le_floor_iff)
  have "w + 1 / 2 < of_int (hi + 1)" using assms(2) by simp
  then have "\<lfloor>w + 1 / 2\<rfloor> < hi + 1" by (simp only: floor_less_iff)
  with a show ?thesis unfolding Math_round_def by simp
qed

lemma smart_weighted_near:
  assumes v: "validCompleted h = x # y # z # rest"
  shows "\<bar>fl (fl (fl (of_int (lengthDays x) * fl (1 / 2))
                    + fl (of_int (lengthDays y) * fl (3 / 10)))
                + fl (of_int (lengthDays z) * fl (1 / 5)))
          - of_int (5 * lengthDays x + 3 * lengthDays y + 2 * lengthDays z) / 10\<bar> \<le> 1 / 1000"
proof -
  have r: "21 \<le> lengthDays x" "lengthDays x \<le> 45" "21 \<le> lengthDays y" "lengthDays y \<le> 45"
    "21 \<le> lengthDays z" "lengthDays z \<le> 45"
    using validCompleted_range [of x h] validCompleted_range [of y h]
      validCompleted_range [of z h] v by simp_all
  have e: "(of_int (5 * lengthDays x + 3 * lengthDays y + 2 * lengthDays z) / 10 :: rat)
             = of_int (lengthDays x) / 2 + 3 * of_int (lengthDays y) / 10 + of_int (lengthDays z) / 5"
    by simp
  show ?thesis unfolding e by (rule weighted_error [OF r])
qed

text \<open>
  Claim C6. \<open>calculateSmartCycleAverage\<close> never reads the cycle at index 0, and a cycle
  whose length is outside 21..45 is discarded, not clamped: the result is the one for the
  history with those cycles removed. With no valid cycle left it returns the user default
  unchanged; with one or two it returns their mean rounded by \<open>Math.round\<close>. So
  \<open>smartAverage([], 28)\<close> and \<open>smartAverage([{length: 60}], 28)\<close> are both 28.
\<close>

theorem calculateSmartCycleAverage_fallback_and_mean:
  "(validCompleted h = [] \<longrightarrow> calculateSmartCycleAverage h d = d)
   \<and> (length (validCompleted h) = 1 \<or> length (validCompleted h) = 2 \<longrightarrow>
        calculateSmartCycleAverage h d =
          Math_round (of_int (sum_list (map lengthDays (validCompleted h)))
                       / of_int (int (length (validCompleted h)))))
   \<and> calculateSmartCycleAverage h d = calculateSmartCycleAverage (take 1 h @ validCompleted h) d
   \<and> calculateSmartCycleAverage (c # rest) d = calculateSmartCycleAverage (c' # rest) d
   \<and> calculateSmartCycleAverage [] 28 = 28
   \<and> calculateSmartCycleAverage [\<lparr>startDate = s, lengthDays = 60\<rparr>] 28 = 28"
proof -
  have one: "length (validCompleted h) = 1 \<Longrightarrow> calculateSmartCycleAverage h d =
      Math_round (of_int (sum_list (map lengthDays (validCompleted h)))
                   / of_int (int (length (validCompleted h))))"
  proof -
    assume "length (validCompleted h) = 1"
    then obtain x where v: "validCompleted h = [x]"
      by (cases "validCompleted h") simp_all
    show ?thesis unfolding smart_one [OF v] v by (simp add: Math_round_of_int)
  qed
  have two: "length (validCompleted h) = 2 \<Longrightarrow> calculateSmartCycleAverage h d =
      Math_round (of_int (sum_list (map lengthDays (validCompleted h)))
                   / of_int (int (length (validCompleted h))))"
  proof -
    assume "length (validCompleted h) = 2"
    then obtain x y where v: "validCompleted h = [x, y]"
      by (cases "validCompleted h"; cases "tl (validCompleted h)") auto
    show ?thesis unfolding smart_two [OF v] v by simp
  qed
  have disc: "calculateSmartCycleAverage h d = calculateSmartCycleAverage (take 1 h @ validCompleted h) d"
    by (rule smart_cong) (simp only: validCompleted_idem)
  have hd: "calculateSmartCycleAverage (c # rest) d = calculateSmartCycleAverage (c' # rest) d"
    by (rule smart_cong) (simp add: validCompleted_def)
  have ex: "calculateSmartCycleAverage [] 28 = 28"
    "calculateSmartCycleAverage [\<lparr>startDate = s, lengthDays = 60\<rparr>] 28 = 28"
    by (simp_all add: smart_none validCompleted_def)
  show ?thesis using one two disc hd ex by (auto simp: smart_none)
qed

text \<open>
  An empty history returns the default 30. In a history of an open cycle and the lengths
  60, 30 and 27, the 60 is discarded and the mean 28.5 of the other two rounds to 29.
\<close>

theorem calculateSmartCycleAverage_fallback_and_mean_witness:
  "calculateSmartCycleAverage [] 30 = 30
   \<and> calculateSmartCycleAverage
       [\<lparr>startDate = 200, lengthDays = 28\<rparr>, \<lparr>startDate = 140, lengthDays = 60\<rparr>,
        \<lparr>startDate = 110, lengthDays = 30\<rparr>, \<lparr>startDate = 83, lengthDays = 27\<rparr>] 28 = 29"
proof -
  have m: "Math_round (57 / 2) = 29" unfolding Math_round_def by (rule floor_unique) simp_all
  show ?thesis
    using calculateSmartCycleAverage_fallback_and_mean [of "[]" 30]
      calculateSmartCycleAverage_fallback_and_mean
        [of "[\<lparr>startDate = 200, lengthDays = 28\<rparr>, \<lparr>startDate = 140, lengthDays = 60\<rparr>,
              \<lparr>startDate = 110, lengthDays = 30\<rparr>, \<lparr>startDate = 83, lengthDays = 27\<rparr>]" 28]
    by (simp add: validCompleted_def m)
qed

lemma tie_below:
  fixes r k :: int
  assumes n: "\<bar>(of_int r :: rat) - of_int k / 10\<bar> \<le> 1 / 2"
    and t: "k mod 10 = 5"
    and ne: "r \<noteq> Math_round (of_int k / 10)"
  shows "r = Math_round (of_int k / 10) - 1"
proof -
  define m where "m = k div 10"
  have k: "k = 10 * m + 5" unfolding m_def using t by presburger
  have q: "(of_int k :: rat) / 10 = of_int m + 1 / 2" unfolding k by simp
  have mr: "Math_round (of_int k / 10) = m + 1"
    unfolding Math_round_def q by (rule floor_unique) simp_all
  have "(of_int m :: rat) \<le> of_int r" "(of_int r :: rat) \<le> of_int m + 1"
    using n unfolding q by linarith+
  then have "m \<le> r" "r \<le> m + 1" by linarith+
  with ne show ?thesis unfolding mr by simp
qed

text \<open>
  Claim C3, as amended. With three or more valid completed cycles the result is the
  weighted average of the first three, in list order, with the weights 0.5, 0.3 and 0.2,
  rounded to a nearest integer. It is the \<open>Math.round\<close> of the weighted sum as doubles
  compute it; it differs from the exact average by at most one half; and it is the
  \<open>Math.round\<close> of the exact average, except that it may be the integer below when the
  exact average is half way between two integers. The lengths 30, 28 and 26 give 29.
\<close>

theorem calculateSmartCycleAverage_weighted:
  "3 \<le> length (validCompleted h) \<longrightarrow>
     (let l0 = lengthDays (validCompleted h ! 0);
          l1 = lengthDays (validCompleted h ! 1);
          l2 = lengthDays (validCompleted h ! 2);
          avg = (of_int l0 * (1 / 2) + of_int l1 * (3 / 10) + of_int l2 * (1 / 5) :: rat)
      in calculateSmartCycleAverage h d =
           Math_round (fl (fl (fl (of_int l0 * fl (1 / 2)) + fl (of_int l1 * fl (3 / 10)))
                            + fl (of_int l2 * fl (1 / 5))))
         \<and> \<bar>of_int (calculateSmartCycleAverage h d) - avg\<bar> \<le> 1 / 2
         \<and> (calculateSmartCycleAverage h d = Math_round avg
              \<or> (5 * l0 + 3 * l1 + 2 * l2) mod 10 = 5
                \<and> calculateSmartCycleAverage h d = Math_round avg - 1))"
proof
  assume "3 \<le> length (validCompleted h)"
  then obtain x y z rest where v: "validCompleted h = x # y # z # rest"
    by (cases "validCompleted h"; cases "tl (validCompleted h)"; cases "tl (tl (validCompleted h))") auto
  define k where "k = 5 * lengthDays x + 3 * lengthDays y + 2 * lengthDays z"
  have avg: "(of_int (lengthDays x) * (1 / 2) + of_int (lengthDays y) * (3 / 10)
               + of_int (lengthDays z) * (1 / 5) :: rat) = of_int k / 10"
    unfolding k_def by simp
  note n = smart_weighted_near [OF v, folded k_def]
  have a: "\<bar>of_int (calculateSmartCycleAverage h d) - (of_int k / 10 :: rat)\<bar> \<le> 1 / 2"
    unfolding smart_three [OF v] by (rule round_near(1) [OF n])
  have b: "k mod 10 \<noteq> 5 \<Longrightarrow> calculateSmartCycleAverage h d = Math_round (of_int k / 10)"
    unfolding smart_three [OF v] by (rule round_near(2) [OF n])
  have t: "calculateSmartCycleAverage h d = Math_round (of_int k / 10)
           \<or> k mod 10 = 5 \<and> calculateSmartCycleAverage h d = Math_round (of_int k / 10) - 1"
    using b tie_below [OF a] by blast
  have i: "validCompleted h ! 0 = x" "validCompleted h ! 1 = y" "validCompleted h ! 2 = z"
    unfolding v by simp_all
  note c = smart_three [OF v, of d]
  show "let l0 = lengthDays (validCompleted h ! 0);
          l1 = lengthDays (validCompleted h ! 1);
          l2 = lengthDays (validCompleted h ! 2);
          avg = (of_int l0 * (1 / 2) + of_int l1 * (3 / 10) + of_int l2 * (1 / 5) :: rat)
      in calculateSmartCycleAverage h d =
           Math_round (fl (fl (fl (of_int l0 * fl (1 / 2)) + fl (of_int l1 * fl (3 / 10)))
                            + fl (of_int l2 * fl (1 / 5))))
         \<and> \<bar>of_int (calculateSmartCycleAverage h d) - avg\<bar> \<le> 1 / 2
         \<and> (calculateSmartCycleAverage h d = Math_round avg
              \<or> (5 * l0 + 3 * l1 + 2 * l2) mod 10 = 5
                \<and> calculateSmartCycleAverage h d = Math_round avg - 1)"
    unfolding Let_def i avg using a t c unfolding k_def by blast
qed

text \<open>
  An open cycle followed by the lengths 30, 28 and 26: the exact average is 28.6 and the
  result is 29.
\<close>

theorem calculateSmartCycleAverage_weighted_witness:
  "calculateSmartCycleAverage
     [\<lparr>startDate = 200, lengthDays = 28\<rparr>, \<lparr>startDate = 116, lengthDays = 30\<rparr>,
      \<lparr>startDate = 88, lengthDays = 28\<rparr>, \<lparr>startDate = 62, lengthDays = 26\<rparr>] 28 = 29"
proof -
  have m: "Math_round (143 / 5) = 29"
    unfolding Math_round_def by (rule floor_unique) simp_all
  show ?thesis
    using calculateSmartCycleAverage_weighted
        [of "[\<lparr>startDate = 200, lengthDays = 28\<rparr>, \<lparr>startDate = 116, lengthDays = 30\<rparr>,
              \<lparr>startDate = 88, lengthDays = 28\<rparr>, \<lparr>startDate = 62, lengthDays = 26\<rparr>]" 28]
    by (simp add: validCompleted_def Let_def m)
qed

text \<open>
  The claim as stated, with the result equal to the rounded weighted average for every
  list, fails when the exact average is half way between two integers and the sum
  computed in doubles falls just below it: the valid lengths 21, 36 and 21 average 25.5
  exactly, whose rounding is 26; the doubles add up to 25.499999999999996, and the result
  is 25.
\<close>

theorem calculateSmartCycleAverage_weighted_counterexample:
  "calculateSmartCycleAverage
     [\<lparr>startDate = 200, lengthDays = 28\<rparr>, \<lparr>startDate = 116, lengthDays = 21\<rparr>,
      \<lparr>startDate = 95, lengthDays = 36\<rparr>, \<lparr>startDate = 59, lengthDays = 21\<rparr>] 28 = 25
   \<and> Math_round (21 * (1 / 2) + 36 * (3 / 10) + 21 * (1 / 5)) = 26"
proof -
  have "Math_round (21 * (1 / 2) + 36 * (3 / 10) + 21 * (1 / 5)) = 26"
    unfolding Math_round_def by (rule floor_unique) simp_all
  moreover have "calculateSmartCycleAverage
     [\<lparr>startDate = 200, lengthDays = 28\<rparr>, \<lparr>startDate = 116, lengthDays = 21\<rparr>,
      \<lparr>startDate = 95, lengthDays = 36\<rparr>, \<lparr>startDate = 59, lengthDays = 21\<rparr>] 28 = 25"
    by code_simp
  ultimately show ?thesis by simp
qed

text \<open>
  Claim C10. When at least one valid completed cycle exists, the result lies in 21..45,
  whatever the user default: the rounded mean of one or two lengths of that range and the
  rounded weighted sum of three stay inside it.
\<close>

theorem calculateSmartCycleAverage_plausible:
  "validCompleted h \<noteq> [] \<longrightarrow>
     21 \<le> calculateSmartCycleAverage h d \<and> calculateSmartCycleAverage h d \<le> 45"
proof
  assume ne: "validCompleted h \<noteq> []"
  consider (one) x where "validCompleted h = [x]"
    | (two) x y where "validCompleted h = [x, y]"
    | (more) x y z rest where "validCompleted h = x # y # z # rest"
    using ne
    by (cases "validCompleted h"; cases "tl (validCompleted h)"; cases "tl (tl (validCompleted h))") auto
  then show "21 \<le> calculateSmartCycleAverage h d \<and> calculateSmartCycleAverage h d \<le> 45"
  proof cases
    case one
    show ?thesis unfolding smart_one [OF one] using validCompleted_range [of x h] one by simp
  next
    case two
    have r: "21 \<le> lengthDays x" "lengthDays x \<le> 45" "21 \<le> lengthDays y" "lengthDays y \<le> 45"
      using validCompleted_range [of x h] validCompleted_range [of y h] two by simp_all
    show ?thesis unfolding smart_two [OF two]
      using r by (intro Math_round_bounds) simp_all
  next
    case more
    have r: "21 \<le> lengthDays x" "lengthDays x \<le> 45" "21 \<le> lengthDays y" "lengthDays y \<le> 45"
      "21 \<le> lengthDays z" "lengthDays z \<le> 45"
      using validCompleted_range [of x h] validCompleted_range [of y h]
        validCompleted_range [of z h] more by simp_all
    define k where "k = 5 * lengthDays x + 3 * lengthDays y + 2 * lengthDays z"
    define w where "w = fl (fl (fl (of_int (lengthDays x) * fl (1 / 2))
                    + fl (of_int (lengthDays y) * fl (3 / 10)))
                + fl (of_int (lengthDays z) * fl (1 / 5)))"
    define K :: rat where "K = of_int k"
    have n: "\<bar>w - K / 10\<bar> \<le> 1 / 1000"
      unfolding w_def K_def k_def by (rule smart_weighted_near [OF more])
    have kb: "210 \<le> K" "K \<le> 450"
    proof -
      have "210 \<le> k" "k \<le> 450" unfolding k_def using r by linarith+
      then show "210 \<le> K" "K \<le> 450" unfolding K_def by simp_all
    qed
    have "K / 10 - 1 / 1000 \<le> w" "w \<le> K / 10 + 1 / 1000"
      using abs_le_D1 [OF n] abs_le_D2 [OF n] by linarith+
    with kb have "of_int 21 - 1 / 2 \<le> w" "w < of_int 45 + 1 / 2" by simp_all
    then show ?thesis unfolding smart_three [OF more] w_def [symmetric]
      by (rule Math_round_bounds)
  qed
qed

text \<open>
  An open cycle, a discarded length 60 and one valid length 45, with a user default of 99:
  the result is within 21..45.
\<close>

theorem calculateSmartCycleAverage_plausible_witness:
  "21 \<le> calculateSmartCycleAverage
       [\<lparr>startDate = 200, lengthDays = 28\<rparr>, \<lparr>startDate = 116, lengthDays = 60\<rparr>,
        \<lparr>startDate = 88, lengthDays = 45\<rparr>] 99
   \<and> calculateSmartCycleAverage
       [\<lparr>startDate = 200, lengthDays = 28\<rparr>, \<lparr>startDate = 116, lengthDays = 60\<rparr>,
        \<lparr>startDate = 88, lengthDays = 45\<rparr>] 99 \<le> 45"
  using calculateSmartCycleAverage_plausible
      [of "[\<lparr>startDate = 200, lengthDays = 28\<rparr>, \<lparr>startDate = 116, lengthDays = 60\<rparr>,
            \<lparr>startDate = 88, lengthDays = 45\<rparr>]" 99]
  by (simp add: validCompleted_def)

section \<open>The regularity score\<close>

text \<open>
  Claim C7. \<open>getCycleRegularity\<close> returns 100 when the list has fewer than four cycles,
  and when fewer than two of the cycles at positions 1 to 6 have a length in 21..45.
  Otherwise it is the step function (at most 2 gives 100, at most 4 gives 80, at most 7
  gives 60, at most 10 gives 40, more gives 20) of the largest surviving length minus the
  smallest. The score always lies between 0 and 100.
\<close>

theorem getCycleRegularity_steps:
  "(length cycles < 4
      \<or> length (filter (\<lambda>l. 21 \<le> l \<and> l \<le> 45) (map lengthDays (take 6 (drop 1 cycles)))) < 2
      \<longrightarrow> getCycleRegularity cycles = 100)
   \<and> (4 \<le> length cycles
      \<and> 2 \<le> length (filter (\<lambda>l. 21 \<le> l \<and> l \<le> 45) (map lengthDays (take 6 (drop 1 cycles))))
      \<longrightarrow> getCycleRegularity cycles =
           regularityStep
             (Max (set (filter (\<lambda>l. 21 \<le> l \<and> l \<le> 45) (map lengthDays (take 6 (drop 1 cycles)))))
              - Min (set (filter (\<lambda>l. 21 \<le> l \<and> l \<le> 45) (map lengthDays (take 6 (drop 1 cycles)))))))
   \<and> 0 \<le> getCycleRegularity cycles \<and> getCycleRegularity cycles \<le> 100"
  by (simp add: getCycleRegularity_def regularityStep_def Math_min_def Math_max_def Let_def)

text \<open>
  Three cycles (an open one and the lengths 28 and 35) score 100, since the list is shorter
  than four; with a fourth cycle, whose length 60 is filtered out, the same two lengths
  differ by 7 and score 60.
\<close>

theorem getCycleRegularity_steps_witness:
  "getCycleRegularity
     [\<lparr>startDate = 90, lengthDays = 28\<rparr>, \<lparr>startDate = 62, lengthDays = 28\<rparr>,
      \<lparr>startDate = 27, lengthDays = 35\<rparr>] = 100
   \<and> getCycleRegularity
     [\<lparr>startDate = 150, lengthDays = 28\<rparr>, \<lparr>startDate = 122, lengthDays = 28\<rparr>,
      \<lparr>startDate = 87, lengthDays = 35\<rparr>, \<lparr>startDate = 27, lengthDays = 60\<rparr>] = 60"
  using getCycleRegularity_steps
      [of "[\<lparr>startDate = 90, lengthDays = 28\<rparr>, \<lparr>startDate = 62, lengthDays = 28\<rparr>,
            \<lparr>startDate = 27, lengthDays = 35\<rparr>]"]
    getCycleRegularity_steps
      [of "[\<lparr>startDate = 150, lengthDays = 28\<rparr>, \<lparr>startDate = 122, lengthDays = 28\<rparr>,
            \<lparr>startDate = 87, lengthDays = 35\<rparr>, \<lparr>startDate = 27, lengthDays = 60\<rparr>]"]
  by (simp add: regularityStep_def)

section \<open>Cycle boundaries and the order of the cycles\<close>

lemma day_quotient: "(of_int (k * 86400000) :: rat) / (1000 * 3600 * 24) = of_int k"
  by simp

lemma gap_test:
  "((of_int (newDate d - newDate p) :: rat) / (1000 * 3600 * 24) > 7) = (d - p > 7)"
proof -
  have "((of_int (d - p) :: rat) > of_int 7) = (d - p > 7)" by (rule of_int_less_iff)
  then show ?thesis unfolding newDate_diff day_quotient by simp
qed

lemma segmentLoop_step:
  "segmentLoop env (l # ls) s (newDate p) cyc =
     (if date l - p > 7 then
        segmentLoop env ls (newDate (date l)) (newDate (date l))
          (cyc @ [\<lparr>startDate = formatDateISO env s,
                   lengthDays = diffDaysBetween (formatDateISO env s) (formatDateISO env (newDate (date l)))\<rparr>])
      else segmentLoop env ls s (newDate (date l)) cyc)"
  by (simp only: segmentLoop.simps Let_def gap_test)

lemma segmentLoop_append:
  "segmentLoop env (xs @ ys) s (newDate p) cyc =
     (case segmentLoop env xs s (newDate p) cyc of
        (c', s') \<Rightarrow> segmentLoop env ys s' (newDate (if xs = [] then p else date (last xs))) c')"
proof (induction xs arbitrary: s p cyc)
  case Nil
  show ?case by simp
next
  case (Cons x xs)
  show ?case
    unfolding append_Cons segmentLoop_step Cons.IH
    by (cases "xs = []") simp_all
qed

lemma insort_key_snoc:
  "f x \<le> f a \<Longrightarrow> insort_key f x (ys @ [a]) = insort_key f x ys @ [a]"
  by (induction ys) simp_all

lemma sort_key_snoc:
  "\<forall>x\<in>set xs. f x \<le> f a \<Longrightarrow> sort_key f (xs @ [a]) = sort_key f xs @ [a]"
  by (induction xs) (simp_all add: insort_key_snoc)

lemma sorted_key_last:
  "sorted (map f xs) \<Longrightarrow> x \<in> set xs \<Longrightarrow> f x \<le> f (last xs)"
  by (induction xs) auto

lemma newDate_mono: "(newDate a \<le> newDate b) = (a \<le> b)"
  by (simp add: newDate_def msPerDay_def)

lemma newDate_inj: "(newDate a = newDate b) = (a = b)"
  by (simp add: newDate_def msPerDay_def)

lemma analyze_cons:
  assumes "sort_key (\<lambda>l. newDate (date l)) (filter isFlowLog logs) = l0 # rest"
    and "segmentLoop env rest (newDate (date l0)) (newDate (date l0)) [] = (c, s)"
  shows "analyzeCyclesFromLogs env logs n =
           \<lparr>startDate = formatDateISO env s, lengthDays = n\<rparr> # rev c"
  using assms by (simp add: analyzeCyclesFromLogs_def)

lemma analyze_snoc:
  assumes l: "isFlowLog l" and p: "isFlowLog p" "p \<in> set logs"
    and mx: "\<forall>x\<in>set logs. isFlowLog x \<longrightarrow> date x \<le> date p"
    and le: "date p \<le> date l"
  shows "(date l - date p \<le> 7 \<longrightarrow>
            analyzeCyclesFromLogs env (logs @ [l]) n = analyzeCyclesFromLogs env logs n)
       \<and> (8 \<le> date l - date p \<longrightarrow>
            analyzeCyclesFromLogs env (logs @ [l]) n =
              \<lparr>startDate = formatDateISO env (newDate (date l)), lengthDays = n\<rparr>
              # \<lparr>startDate = startDate (hd (analyzeCyclesFromLogs env logs n)),
                 lengthDays = diffDaysBetween (startDate (hd (analyzeCyclesFromLogs env logs n)))
                                (formatDateISO env (newDate (date l)))\<rparr>
              # tl (analyzeCyclesFromLogs env logs n))"
proof -
  define key :: "DailyLog \<Rightarrow> int" where "key = (\<lambda>l. newDate (date l))"
  define F where "F = sort_key key (filter isFlowLog logs)"
  have pF: "p \<in> set F" unfolding F_def using p by simp
  then obtain l0 rest where F: "F = l0 # rest" by (cases F) auto
  have srt: "sorted (map key F)" unfolding F_def by (rule sorted_sort_key)
  have "key p \<le> key (last F)" by (rule sorted_key_last [OF srt pF])
  moreover have "last F \<in> set F" unfolding F by simp
  then have "date (last F) \<le> date p" using mx unfolding F_def by simp
  ultimately have lastF: "date (last F) = date p"
    unfolding key_def newDate_mono by simp
  have lastrest: "(if rest = [] then date l0 else date (last rest)) = date p"
    using lastF unfolding F by (cases "rest = []") simp_all
  have "\<forall>x\<in>set (filter isFlowLog logs). key x \<le> key l"
    using mx le unfolding key_def newDate_mono by auto
  then have "sort_key key (filter isFlowLog logs @ [l]) = F @ [l]"
    unfolding F_def by (rule sort_key_snoc)
  then have F': "sort_key key (filter isFlowLog (logs @ [l])) = l0 # (rest @ [l])"
    using l unfolding F by simp
  obtain c s where cs: "segmentLoop env rest (newDate (date l0)) (newDate (date l0)) [] = (c, s)"
    by (cases "segmentLoop env rest (newDate (date l0)) (newDate (date l0)) []")
  have old: "analyzeCyclesFromLogs env logs n = \<lparr>startDate = formatDateISO env s, lengthDays = n\<rparr> # rev c"
    by (rule analyze_cons [OF F [unfolded F_def key_def] cs])
  have loop: "segmentLoop env (rest @ [l]) (newDate (date l0)) (newDate (date l0)) [] =
      (if date l - date p > 7 then
         (c @ [\<lparr>startDate = formatDateISO env s,
                 lengthDays = diffDaysBetween (formatDateISO env s) (formatDateISO env (newDate (date l)))\<rparr>],
          newDate (date l))
       else (c, s))"
    unfolding segmentLoop_append cs prod.case lastrest segmentLoop_step by simp
  show ?thesis
  proof (cases "date l - date p > 7")
    case True
    have "analyzeCyclesFromLogs env (logs @ [l]) n =
        \<lparr>startDate = formatDateISO env (newDate (date l)), lengthDays = n\<rparr>
        # rev (c @ [\<lparr>startDate = formatDateISO env s,
                 lengthDays = diffDaysBetween (formatDateISO env s) (formatDateISO env (newDate (date l)))\<rparr>])"
      using True loop by (intro analyze_cons [OF F' [unfolded key_def]]) simp
    then show ?thesis using True unfolding old by simp
  next
    case False
    have "analyzeCyclesFromLogs env (logs @ [l]) n =
        \<lparr>startDate = formatDateISO env s, lengthDays = n\<rparr> # rev c"
      using False loop by (intro analyze_cons [OF F' [unfolded key_def]]) simp
    then show ?thesis using False unfolding old by simp
  qed
qed

lemma day_of_shifted:
  fixes d r :: int
  assumes "0 \<le> r" "r < 86400000"
  shows "(d * 86400000 + r) div 86400000 = d"
  using assms by (simp add: div_pos_pos_trivial)

lemma formatDateISO_east:
  "eastOfUTC env \<Longrightarrow> formatDateISO env (newDate d) = d"
proof -
  assume e: "eastOfUTC env"
  define off where "off = getTimezoneOffset env (newDate d)"
  have o: "- 1440 < off" "off \<le> 0" using e unfolding eastOfUTC_def off_def by simp_all
  have "(d * 86400000 + (- off * 60 * 1000)) div 86400000 = d"
    using o by (intro day_of_shifted) simp_all
  then have "(d * 86400000 - off * 60 * 1000) div 86400000 = d" by simp
  then show ?thesis
    unfolding formatDateISO_def Let_def off_def [symmetric]
    by (simp add: newDate_def msPerDay_def)
qed

lemma analyze_single:
  "isFlowLog l \<Longrightarrow>
   analyzeCyclesFromLogs env [l] n = [\<lparr>startDate = formatDateISO env (newDate (date l)), lengthDays = n\<rparr>]"
  by (simp add: analyzeCyclesFromLogs_def)

lemma ymd_values:
  "ymd 2024 1 1 = 19723" "ymd 2024 1 8 = 19730" "ymd 2024 1 9 = 19731" "ymd 2024 1 20 = 19742"
  "ymd 2023 12 31 = 19722"
  by (simp_all add: ymd_def)

lemma eastOfUTC_fixedZone: "eastOfUTC (fixedZone off) = (- 1440 < off \<and> off \<le> 0)"
  by (simp add: eastOfUTC_def fixedZone_def)

lemma formatDateISO_fixedZone:
  "formatDateISO (fixedZone off) t = (t - off * 60000) div 86400000"
  by (simp add: formatDateISO_def fixedZone_def msPerDay_def)

lemma flowLogs_empty:
  "(sort_key (\<lambda>l. newDate (date l)) (filter isFlowLog logs) = []) = (\<forall>l\<in>set logs. \<not> isFlowLog l)"
proof -
  have "(sort_key (\<lambda>l. newDate (date l)) (filter isFlowLog logs) = [])
        = (set (sort_key (\<lambda>l. newDate (date l)) (filter isFlowLog logs)) = {})"
    by (simp only: set_empty)
  also have "\<dots> = (\<forall>l\<in>set logs. \<not> isFlowLog l)" by auto
  finally show ?thesis .
qed

lemma analyze_nonempty: "(analyzeCyclesFromLogs env logs n \<noteq> []) = (\<exists>l\<in>set logs. isFlowLog l)"
proof (cases "sort_key (\<lambda>l. newDate (date l)) (filter isFlowLog logs)")
  case Nil
  then have "analyzeCyclesFromLogs env logs n = []" by (simp add: analyzeCyclesFromLogs_def)
  moreover have "\<forall>l\<in>set logs. \<not> isFlowLog l" using Nil by (simp only: flowLogs_empty)
  ultimately show ?thesis by blast
next
  case (Cons l0 rest)
  obtain c s where cs: "segmentLoop env rest (newDate (date l0)) (newDate (date l0)) [] = (c, s)"
    by (cases "segmentLoop env rest (newDate (date l0)) (newDate (date l0)) []")
  have "analyzeCyclesFromLogs env logs n \<noteq> []"
    unfolding analyze_cons [OF Cons cs] by simp
  moreover have "\<not> (\<forall>l\<in>set logs. \<not> isFlowLog l)"
    using Cons by (simp only: flowLogs_empty [symmetric]) simp
  ultimately show ?thesis by blast
qed

lemma analyze_shape:
  assumes "\<exists>l\<in>set logs. isFlowLog l"
  obtains l0 rest c s where
    "sort_key (\<lambda>l. newDate (date l)) (filter isFlowLog logs) = l0 # rest"
    "segmentLoop env rest (newDate (date l0)) (newDate (date l0)) [] = (c, s)"
    "analyzeCyclesFromLogs env logs n = \<lparr>startDate = formatDateISO env s, lengthDays = n\<rparr> # rev c"
proof -
  have "sort_key (\<lambda>l. newDate (date l)) (filter isFlowLog logs) \<noteq> []"
    using assms by (simp only: flowLogs_empty) blast
  then obtain l0 rest where F: "sort_key (\<lambda>l. newDate (date l)) (filter isFlowLog logs) = l0 # rest"
    by (cases "sort_key (\<lambda>l. newDate (date l)) (filter isFlowLog logs)") auto
  obtain c s where cs: "segmentLoop env rest (newDate (date l0)) (newDate (date l0)) [] = (c, s)"
    by (cases "segmentLoop env rest (newDate (date l0)) (newDate (date l0)) []")
  show ?thesis
    by (rule that [OF F cs analyze_cons [OF F cs]])
qed

lemma analyze_no_flow:
  "(analyzeCyclesFromLogs env logs n = []) = (\<forall>l\<in>set logs. \<not> isFlowLog l)"
  using analyze_nonempty [of env logs n] by blast

lemma map_date_insort:
  "map date (insort_key (\<lambda>l. newDate (date l)) x ys) = insort (date x) (map date ys)"
  by (induction ys) (simp_all add: newDate_mono)

lemma map_date_sort:
  "map date (sort_key (\<lambda>l. newDate (date l)) xs) = sort (map date xs)"
  by (induction xs) (simp_all add: map_date_insort)

lemma segmentLoop_starts:
  "segmentLoop env ls (newDate s) (newDate p) cyc =
     (cyc @ map (\<lambda>(a, b). \<lparr>startDate = formatDateISO env (newDate a),
                          lengthDays = diffDaysBetween (formatDateISO env (newDate a))
                                         (formatDateISO env (newDate b))\<rparr>)
        (zip (s # map snd (filter (\<lambda>(a, b). 8 \<le> b - a) (zip (p # map date ls) (map date ls))))
             (map snd (filter (\<lambda>(a, b). 8 \<le> b - a) (zip (p # map date ls) (map date ls))))),
      newDate (last (s # map snd (filter (\<lambda>(a, b). 8 \<le> b - a) (zip (p # map date ls) (map date ls))))))"
proof (induction ls arbitrary: s p cyc)
  case Nil
  show ?case by simp
next
  case (Cons l ls)
  show ?case
  proof (cases "date l - p > 7")
    case True
    then have g: "8 \<le> date l - p" by simp
    show ?thesis
      unfolding segmentLoop_step using True g
      by (simp add: Cons.IH)
  next
    case False
    then have g: "\<not> 8 \<le> date l - p" by simp
    show ?thesis
      unfolding segmentLoop_step using False g
      by (simp add: Cons.IH)
  qed
qed

lemma analyze_closed_form:
  assumes "\<exists>l\<in>set logs. isFlowLog l"
  shows "analyzeCyclesFromLogs env logs n =
     \<lparr>startDate = formatDateISO env (newDate (last (cycleStarts (flowDays logs)))), lengthDays = n\<rparr>
     # rev (map (\<lambda>(a, b). \<lparr>startDate = formatDateISO env (newDate a),
                          lengthDays = diffDaysBetween (formatDateISO env (newDate a))
                                         (formatDateISO env (newDate b))\<rparr>)
              (zip (cycleStarts (flowDays logs)) (tl (cycleStarts (flowDays logs)))))"
proof -
  from analyze_shape [OF assms, of env n] obtain l0 rest c s where
    F: "sort_key (\<lambda>l. newDate (date l)) (filter isFlowLog logs) = l0 # rest"
    and cs: "segmentLoop env rest (newDate (date l0)) (newDate (date l0)) [] = (c, s)"
    and r: "analyzeCyclesFromLogs env logs n = \<lparr>startDate = formatDateISO env s, lengthDays = n\<rparr> # rev c"
    by blast
  have "flowDays logs = map date (l0 # rest)"
    unfolding flowDays_def F [symmetric] map_date_sort ..
  then have fd: "flowDays logs = date l0 # map date rest" by simp
  have st: "cycleStarts (flowDays logs) =
      date l0 # map snd (filter (\<lambda>(a, b). 8 \<le> b - a) (zip (date l0 # map date rest) (map date rest)))"
    unfolding fd cycleStarts_def by simp
  show ?thesis
    using cs unfolding r st segmentLoop_starts by auto
qed

lemma analyze_two:
  "analyzeCyclesFromLogs env
     [\<lparr>date = ymd 2024 1 1, flow = Some Medium\<rparr>, \<lparr>date = ymd 2024 1 8, flow = Some Medium\<rparr>] n
     = [\<lparr>startDate = formatDateISO env (newDate (ymd 2024 1 1)), lengthDays = n\<rparr>]"
  "analyzeCyclesFromLogs env
     [\<lparr>date = ymd 2024 1 1, flow = Some Medium\<rparr>, \<lparr>date = ymd 2024 1 9, flow = Some Medium\<rparr>] n
     = [\<lparr>startDate = formatDateISO env (newDate (ymd 2024 1 9)), lengthDays = n\<rparr>,
        \<lparr>startDate = formatDateISO env (newDate (ymd 2024 1 1)),
         lengthDays = diffDaysBetween (formatDateISO env (newDate (ymd 2024 1 1)))
                        (formatDateISO env (newDate (ymd 2024 1 9)))\<rparr>]"
  by (simp_all add: analyze_closed_form isFlowLog_def flowDays_def cycleStarts_def ymd_values)

lemma ymd_12: "ymd 2024 1 12 = 19734"
  by (simp add: ymd_def)

text \<open>
  Claim C1, as amended. For the segmenter of \<open>utils/dateUtils.ts\<close>, whatever the order of
  the logs in the list: take the flow-positive logs in date order. A cycle begins on the
  first flow day and on every flow day that is 8 or more days after the flow day before
  it; a gap of 7 days or less keeps the two logs in the same cycle. The result is the
  open cycle of the last such day with the default length, followed by one closed cycle
  for every two successive cycle starts, newest first, with the start date of the earlier
  one and the day difference between the two start dates as its length, all dates as
  \<open>formatDateISO\<close> writes them. A list without a flow log gives no cycle.

  In particular, let \<open>p\<close> be the latest flow log of a log list and \<open>l\<close> a flow log on the
  same or a later day. When \<open>l\<close> is at most 7 days after \<open>p\<close>, adding it leaves the cycles
  as they are. When it is 8 or more days after \<open>p\<close>, the cycle that was open is closed
  with its start date kept and with the day difference from that start to the start of
  the new cycle as its length, and a new open cycle starts at the day of \<open>l\<close>.

  In every runtime, logs on 2024-01-01 and 2024-01-08 (Medium) give one cycle and logs on
  2024-01-01 and 2024-01-09 give two. In a runtime whose local time is UTC or ahead of it
  the one cycle starts on 2024-01-01, and the two cycles start on 2024-01-09 and
  2024-01-01, the closed one with length 8.
\<close>

theorem analyzeCyclesFromLogs_boundary:
  "((\<exists>l\<in>set logs. isFlowLog l) \<longrightarrow>
      analyzeCyclesFromLogs env logs n =
        \<lparr>startDate = formatDateISO env (newDate (last (cycleStarts (flowDays logs)))),
         lengthDays = n\<rparr>
        # rev (map (\<lambda>(a, b). \<lparr>startDate = formatDateISO env (newDate a),
                             lengthDays = diffDaysBetween (formatDateISO env (newDate a))
                                            (formatDateISO env (newDate b))\<rparr>)
                 (zip (cycleStarts (flowDays logs)) (tl (cycleStarts (flowDays logs))))))
   \<and> ((\<forall>l\<in>set logs. \<not> isFlowLog l) \<longrightarrow> analyzeCyclesFromLogs env logs n = [])
   \<and> (isFlowLog l \<and> isFlowLog p \<and> p \<in> set logs
      \<and> (\<forall>x\<in>set logs. isFlowLog x \<longrightarrow> date x \<le> date p) \<and> date p \<le> date l \<longrightarrow>
        (date l - date p \<le> 7 \<longrightarrow>
           analyzeCyclesFromLogs env (logs @ [l]) n = analyzeCyclesFromLogs env logs n)
      \<and> (8 \<le> date l - date p \<longrightarrow>
           analyzeCyclesFromLogs env (logs @ [l]) n =
             \<lparr>startDate = formatDateISO env (newDate (date l)), lengthDays = n\<rparr>
             # \<lparr>startDate = startDate (hd (analyzeCyclesFromLogs env logs n)),
                lengthDays = diffDaysBetween (startDate (hd (analyzeCyclesFromLogs env logs n)))
                               (formatDateISO env (newDate (date l)))\<rparr>
             # tl (analyzeCyclesFromLogs env logs n)))
   \<and> length (analyzeCyclesFromLogs env
        [\<lparr>date = ymd 2024 1 1, flow = Some Medium\<rparr>, \<lparr>date = ymd 2024 1 8, flow = Some Medium\<rparr>] n) = 1
   \<and> length (analyzeCyclesFromLogs env
        [\<lparr>date = ymd 2024 1 1, flow = Some Medium\<rparr>, \<lparr>date = ymd 2024 1 9, flow = Some Medium\<rparr>] n) = 2
   \<and> (eastOfUTC env \<longrightarrow>
        analyzeCyclesFromLogs env
          [\<lparr>date = ymd 2024 1 1, flow = Some Medium\<rparr>, \<lparr>date = ymd 2024 1 8, flow = Some Medium\<rparr>] n
          = [\<lparr>startDate = ymd 2024 1 1, lengthDays = n\<rparr>]
      \<and> analyzeCyclesFromLogs env
          [\<lparr>date = ymd 2024 1 1, flow = Some Medium\<rparr>, \<lparr>date = ymd 2024 1 9, flow = Some Medium\<rparr>] n
          = [\<lparr>startDate = ymd 2024 1 9, lengthDays = n\<rparr>, \<lparr>startDate = ymd 2024 1 1, lengthDays = 8\<rparr>])"
proof (intro conjI impI)
  assume "\<exists>l\<in>set logs. isFlowLog l"
  then show "analyzeCyclesFromLogs env logs n =
        \<lparr>startDate = formatDateISO env (newDate (last (cycleStarts (flowDays logs)))),
         lengthDays = n\<rparr>
        # rev (map (\<lambda>(a, b). \<lparr>startDate = formatDateISO env (newDate a),
                             lengthDays = diffDaysBetween (formatDateISO env (newDate a))
                                            (formatDateISO env (newDate b))\<rparr>)
                 (zip (cycleStarts (flowDays logs)) (tl (cycleStarts (flowDays logs)))))"
    by (rule analyze_closed_form)
next
  assume "\<forall>l\<in>set logs. \<not> isFlowLog l"
  then show "analyzeCyclesFromLogs env logs n = []" by (simp only: analyze_no_flow)
next
  assume a: "isFlowLog l \<and> isFlowLog p \<and> p \<in> set logs
      \<and> (\<forall>x\<in>set logs. isFlowLog x \<longrightarrow> date x \<le> date p) \<and> date p \<le> date l"
  then have s: "isFlowLog l" "isFlowLog p" "p \<in> set logs"
    "\<forall>x\<in>set logs. isFlowLog x \<longrightarrow> date x \<le> date p" "date p \<le> date l" by blast+
  note sn = analyze_snoc [OF s, of env n]
  { assume "date l - date p \<le> 7"
    with sn show "analyzeCyclesFromLogs env (logs @ [l]) n = analyzeCyclesFromLogs env logs n"
      by blast }
  { assume "8 \<le> date l - date p"
    with sn show "analyzeCyclesFromLogs env (logs @ [l]) n =
             \<lparr>startDate = formatDateISO env (newDate (date l)), lengthDays = n\<rparr>
             # \<lparr>startDate = startDate (hd (analyzeCyclesFromLogs env logs n)),
                lengthDays = diffDaysBetween (startDate (hd (analyzeCyclesFromLogs env logs n)))
                               (formatDateISO env (newDate (date l)))\<rparr>
             # tl (analyzeCyclesFromLogs env logs n)"
      by blast }
next
  show "length (analyzeCyclesFromLogs env
        [\<lparr>date = ymd 2024 1 1, flow = Some Medium\<rparr>, \<lparr>date = ymd 2024 1 8, flow = Some Medium\<rparr>] n) = 1"
    unfolding analyze_two by simp
next
  show "length (analyzeCyclesFromLogs env
        [\<lparr>date = ymd 2024 1 1, flow = Some Medium\<rparr>, \<lparr>date = ymd 2024 1 9, flow = Some Medium\<rparr>] n) = 2"
    unfolding analyze_two by simp
next
  assume e: "eastOfUTC env"
  show "analyzeCyclesFromLogs env
          [\<lparr>date = ymd 2024 1 1, flow = Some Medium\<rparr>, \<lparr>date = ymd 2024 1 8, flow = Some Medium\<rparr>] n
          = [\<lparr>startDate = ymd 2024 1 1, lengthDays = n\<rparr>]"
    unfolding analyze_two formatDateISO_east [OF e] ..
  show "analyzeCyclesFromLogs env
          [\<lparr>date = ymd 2024 1 1, flow = Some Medium\<rparr>, \<lparr>date = ymd 2024 1 9, flow = Some Medium\<rparr>] n
          = [\<lparr>startDate = ymd 2024 1 9, lengthDays = n\<rparr>, \<lparr>startDate = ymd 2024 1 1, lengthDays = 8\<rparr>]"
    unfolding analyze_two formatDateISO_east [OF e] diffDaysBetween_eq by (simp add: ymd_values)
qed

text \<open>
  At UTC+5:30, logs entered in the order 2024-01-20 (Light), 2024-01-12 (Spotting),
  2024-01-01 (Heavy), 2024-01-08 (Medium) give the open cycle of 2024-01-20 and the
  closed cycle of 2024-01-01 with length 19. Five hours west of UTC, a log on 2024-01-20
  entered before one on 2024-01-01 gives two cycles as well, each start written one day
  early. A Spotting log and a log without flow give no cycle. With a Heavy log on
  2024-01-01 and a Spotting log on 2024-01-12 in the list, adding a Light log on
  2024-01-08 changes nothing and adding one on 2024-01-20 closes the cycle of 2024-01-01
  with length 19; and the two examples of the claim hold.
\<close>

theorem analyzeCyclesFromLogs_boundary_witness:
  "analyzeCyclesFromLogs (fixedZone (- 330))
     [\<lparr>date = ymd 2024 1 20, flow = Some Light\<rparr>, \<lparr>date = ymd 2024 1 12, flow = Some Spotting\<rparr>,
      \<lparr>date = ymd 2024 1 1, flow = Some Heavy\<rparr>, \<lparr>date = ymd 2024 1 8, flow = Some Medium\<rparr>] 28
   = [\<lparr>startDate = ymd 2024 1 20, lengthDays = 28\<rparr>, \<lparr>startDate = ymd 2024 1 1, lengthDays = 19\<rparr>]
   \<and> analyzeCyclesFromLogs (fixedZone 300)
     [\<lparr>date = ymd 2024 1 20, flow = Some Medium\<rparr>, \<lparr>date = ymd 2024 1 1, flow = Some Medium\<rparr>] 28
   = [\<lparr>startDate = ymd 2024 1 20 - 1, lengthDays = 28\<rparr>, \<lparr>startDate = ymd 2023 12 31, lengthDays = 19\<rparr>]
   \<and> analyzeCyclesFromLogs (fixedZone (- 330))
       [\<lparr>date = ymd 2024 1 12, flow = Some Spotting\<rparr>, \<lparr>date = ymd 2024 1 9, flow = None\<rparr>] 28 = []
   \<and> analyzeCyclesFromLogs (fixedZone (- 330))
     ([\<lparr>date = ymd 2024 1 1, flow = Some Heavy\<rparr>, \<lparr>date = ymd 2024 1 12, flow = Some Spotting\<rparr>]
      @ [\<lparr>date = ymd 2024 1 8, flow = Some Light\<rparr>]) 28
   = analyzeCyclesFromLogs (fixedZone (- 330))
       [\<lparr>date = ymd 2024 1 1, flow = Some Heavy\<rparr>, \<lparr>date = ymd 2024 1 12, flow = Some Spotting\<rparr>] 28
   \<and> analyzeCyclesFromLogs (fixedZone (- 330))
     ([\<lparr>date = ymd 2024 1 1, flow = Some Heavy\<rparr>, \<lparr>date = ymd 2024 1 12, flow = Some Spotting\<rparr>]
      @ [\<lparr>date = ymd 2024 1 20, flow = Some Light\<rparr>]) 28
   = [\<lparr>startDate = ymd 2024 1 20, lengthDays = 28\<rparr>, \<lparr>startDate = ymd 2024 1 1, lengthDays = 19\<rparr>]
   \<and> analyzeCyclesFromLogs (fixedZone (- 330))
       [\<lparr>date = ymd 2024 1 1, flow = Some Medium\<rparr>, \<lparr>date = ymd 2024 1 8, flow = Some Medium\<rparr>] 28
       = [\<lparr>startDate = ymd 2024 1 1, lengthDays = 28\<rparr>]
   \<and> analyzeCyclesFromLogs (fixedZone (- 330))
       [\<lparr>date = ymd 2024 1 1, flow = Some Medium\<rparr>, \<lparr>date = ymd 2024 1 9, flow = Some Medium\<rparr>] 28
       = [\<lparr>startDate = ymd 2024 1 9, lengthDays = 28\<rparr>, \<lparr>startDate = ymd 2024 1 1, lengthDays = 8\<rparr>]"
proof -
  have e: "eastOfUTC (fixedZone (- 330))" by (simp add: eastOfUTC_fixedZone)
  have base: "analyzeCyclesFromLogs (fixedZone (- 330))
       [\<lparr>date = ymd 2024 1 1, flow = Some Heavy\<rparr>, \<lparr>date = ymd 2024 1 12, flow = Some Spotting\<rparr>] 28
     = [\<lparr>startDate = ymd 2024 1 1, lengthDays = 28\<rparr>]"
    by (simp add: analyzeCyclesFromLogs_def isFlowLog_def formatDateISO_east [OF e])
  have w: "formatDateISO (fixedZone 300) (newDate 19742) = 19741"
    "formatDateISO (fixedZone 300) (newDate 19723) = 19722"
    by (simp_all add: formatDateISO_fixedZone newDate_def msPerDay_def)
  have g1: "analyzeCyclesFromLogs (fixedZone (- 330))
     [\<lparr>date = ymd 2024 1 20, flow = Some Light\<rparr>, \<lparr>date = ymd 2024 1 12, flow = Some Spotting\<rparr>,
      \<lparr>date = ymd 2024 1 1, flow = Some Heavy\<rparr>, \<lparr>date = ymd 2024 1 8, flow = Some Medium\<rparr>] 28
   = [\<lparr>startDate = ymd 2024 1 20, lengthDays = 28\<rparr>, \<lparr>startDate = ymd 2024 1 1, lengthDays = 19\<rparr>]"
    using analyzeCyclesFromLogs_boundary
        [of "[\<lparr>date = ymd 2024 1 20, flow = Some Light\<rparr>, \<lparr>date = ymd 2024 1 12, flow = Some Spotting\<rparr>,
              \<lparr>date = ymd 2024 1 1, flow = Some Heavy\<rparr>, \<lparr>date = ymd 2024 1 8, flow = Some Medium\<rparr>]"
            "fixedZone (- 330)" 28]
    by (simp add: isFlowLog_def ymd_values ymd_12 flowDays_def cycleStarts_def
        formatDateISO_east [OF e] diffDaysBetween_eq)
  have g2: "analyzeCyclesFromLogs (fixedZone 300)
     [\<lparr>date = ymd 2024 1 20, flow = Some Medium\<rparr>, \<lparr>date = ymd 2024 1 1, flow = Some Medium\<rparr>] 28
   = [\<lparr>startDate = ymd 2024 1 20 - 1, lengthDays = 28\<rparr>, \<lparr>startDate = ymd 2023 12 31, lengthDays = 19\<rparr>]"
    using analyzeCyclesFromLogs_boundary
        [of "[\<lparr>date = ymd 2024 1 20, flow = Some Medium\<rparr>, \<lparr>date = ymd 2024 1 1, flow = Some Medium\<rparr>]"
            "fixedZone 300" 28]
    by (simp add: isFlowLog_def ymd_values flowDays_def cycleStarts_def w diffDaysBetween_eq)
  have g3: "analyzeCyclesFromLogs (fixedZone (- 330))
       [\<lparr>date = ymd 2024 1 12, flow = Some Spotting\<rparr>, \<lparr>date = ymd 2024 1 9, flow = None\<rparr>] 28 = []"
    using analyzeCyclesFromLogs_boundary
        [of "[\<lparr>date = ymd 2024 1 12, flow = Some Spotting\<rparr>, \<lparr>date = ymd 2024 1 9, flow = None\<rparr>]"
            "fixedZone (- 330)" 28]
    by (simp add: isFlowLog_def)
  have g4: "analyzeCyclesFromLogs (fixedZone (- 330))
     ([\<lparr>date = ymd 2024 1 1, flow = Some Heavy\<rparr>, \<lparr>date = ymd 2024 1 12, flow = Some Spotting\<rparr>]
      @ [\<lparr>date = ymd 2024 1 8, flow = Some Light\<rparr>]) 28
   = analyzeCyclesFromLogs (fixedZone (- 330))
       [\<lparr>date = ymd 2024 1 1, flow = Some Heavy\<rparr>, \<lparr>date = ymd 2024 1 12, flow = Some Spotting\<rparr>] 28
   \<and> analyzeCyclesFromLogs (fixedZone (- 330))
     ([\<lparr>date = ymd 2024 1 1, flow = Some Heavy\<rparr>, \<lparr>date = ymd 2024 1 12, flow = Some Spotting\<rparr>]
      @ [\<lparr>date = ymd 2024 1 20, flow = Some Light\<rparr>]) 28
   = [\<lparr>startDate = ymd 2024 1 20, lengthDays = 28\<rparr>, \<lparr>startDate = ymd 2024 1 1, lengthDays = 19\<rparr>]
   \<and> analyzeCyclesFromLogs (fixedZone (- 330))
       [\<lparr>date = ymd 2024 1 1, flow = Some Medium\<rparr>, \<lparr>date = ymd 2024 1 8, flow = Some Medium\<rparr>] 28
       = [\<lparr>startDate = ymd 2024 1 1, lengthDays = 28\<rparr>]
   \<and> analyzeCyclesFromLogs (fixedZone (- 330))
       [\<lparr>date = ymd 2024 1 1, flow = Some Medium\<rparr>, \<lparr>date = ymd 2024 1 9, flow = Some Medium\<rparr>] 28
       = [\<lparr>startDate = ymd 2024 1 9, lengthDays = 28\<rparr>, \<lparr>startDate = ymd 2024 1 1, lengthDays = 8\<rparr>]"
    using analyzeCyclesFromLogs_boundary
        [of "[\<lparr>date = ymd 2024 1 1, flow = Some Heavy\<rparr>, \<lparr>date = ymd 2024 1 12, flow = Some Spotting\<rparr>]"
            "fixedZone (- 330)" 28
            "\<lparr>date = ymd 2024 1 8, flow = Some Light\<rparr>" "\<lparr>date = ymd 2024 1 1, flow = Some Heavy\<rparr>"]
      analyzeCyclesFromLogs_boundary
        [of "[\<lparr>date = ymd 2024 1 1, flow = Some Heavy\<rparr>, \<lparr>date = ymd 2024 1 12, flow = Some Spotting\<rparr>]"
            "fixedZone (- 330)" 28
            "\<lparr>date = ymd 2024 1 20, flow = Some Light\<rparr>" "\<lparr>date = ymd 2024 1 1, flow = Some Heavy\<rparr>"]
    unfolding base
    by (simp add: isFlowLog_def ymd_values ymd_12 e formatDateISO_east [OF e] diffDaysBetween_eq
        flowDays_def cycleStarts_def)
  show ?thesis using g1 g2 g3 g4 by blast
qed

text \<open>
  The claim as stated fails twice. The older \<open>analyzeCyclesFromLogs\<close> of \<open>part_006\<close>
  keeps logs on 2024-01-01 and 2024-01-09 in one cycle, its boundary being ten days. And
  five hours west of UTC the segmenter of \<open>utils/dateUtils.ts\<close> gives the cycle of the logs
  on 2024-01-01 and 2024-01-08 the start date 2023-12-31, which is not 2024-01-01:
  \<open>new Date\<close> reads the date string as midnight UTC and \<open>formatDateISO\<close> writes the
  local day of that instant.
\<close>

theorem analyzeCyclesFromLogs_boundary_counterexample:
  "analyzeCyclesFromLogs_part006 (fixedZone 0)
     [\<lparr>date = ymd 2024 1 1, flow = Some Medium\<rparr>, \<lparr>date = ymd 2024 1 9, flow = Some Medium\<rparr>] 28
     = [\<lparr>startDate = ymd 2024 1 1, lengthDays = 28\<rparr>]
   \<and> analyzeCyclesFromLogs (fixedZone 300)
     [\<lparr>date = ymd 2024 1 1, flow = Some Medium\<rparr>, \<lparr>date = ymd 2024 1 8, flow = Some Medium\<rparr>] 28
     = [\<lparr>startDate = ymd 2023 12 31, lengthDays = 28\<rparr>]
   \<and> ymd 2023 12 31 \<noteq> ymd 2024 1 1"
  by (simp add: analyzeCyclesFromLogs_part006_def analyzeCyclesFromLogs_def isFlowLog_def ymd_values
      newDate_def msPerDay_def formatDateISO_fixedZone Let_def)





text \<open>
  Logs without a flow and Spotting logs have no effect on the result, wherever they stand
  in the list.
\<close>

lemma analyze_ignores_nonflow:
  "analyzeCyclesFromLogs env logs n = analyzeCyclesFromLogs env (filter isFlowLog logs) n"
  by (simp add: analyzeCyclesFromLogs_def)

lemma analyze_drop_nonflow:
  "\<not> isFlowLog l \<Longrightarrow>
   analyzeCyclesFromLogs env (xs @ l # ys) n = analyzeCyclesFromLogs env (xs @ ys) n"
  by (simp add: analyzeCyclesFromLogs_def)

lemma spotting_not_flow: "flow l = Some Spotting \<Longrightarrow> \<not> isFlowLog l"
  by (simp add: isFlowLog_def)

text \<open>
  Claim C8, at the input where the code departs from it. In a runtime five hours west of
  UTC, a Medium log on 2024-01-01 and a Spotting log on 2024-01-20 give a single open
  cycle, the Spotting log being ignored as the claim says, but the cycle starts on
  2023-12-31 and not on 01-01.
\<close>

theorem analyzeCyclesFromLogs_spotting_west_of_UTC:
  "analyzeCyclesFromLogs (fixedZone 300)
     [\<lparr>date = ymd 2024 1 1, flow = Some Medium\<rparr>, \<lparr>date = ymd 2024 1 20, flow = Some Spotting\<rparr>] 28
   = [\<lparr>startDate = ymd 2023 12 31, lengthDays = 28\<rparr>]"
  by (simp add: analyzeCyclesFromLogs_def isFlowLog_def ymd_values
      newDate_def msPerDay_def formatDateISO_fixedZone)

text \<open>
  In a runtime whose local time is UTC or ahead of it the same logs give the cycle the
  claim names.
\<close>

lemma analyze_spotting_example:
  assumes e: "eastOfUTC env"
  shows "analyzeCyclesFromLogs env
     [\<lparr>date = ymd 2024 1 1, flow = Some Medium\<rparr>, \<lparr>date = ymd 2024 1 20, flow = Some Spotting\<rparr>] n
   = [\<lparr>startDate = ymd 2024 1 1, lengthDays = n\<rparr>]"
proof -
  have "analyzeCyclesFromLogs env
      ([\<lparr>date = ymd 2024 1 1, flow = Some Medium\<rparr>] @ \<lparr>date = ymd 2024 1 20, flow = Some Spotting\<rparr> # []) n
    = analyzeCyclesFromLogs env ([\<lparr>date = ymd 2024 1 1, flow = Some Medium\<rparr>] @ []) n"
    by (rule analyze_drop_nonflow) (simp add: isFlowLog_def)
  moreover have "analyzeCyclesFromLogs env [\<lparr>date = ymd 2024 1 1, flow = Some Medium\<rparr>] n
    = [\<lparr>startDate = formatDateISO env (newDate (ymd 2024 1 1)), lengthDays = n\<rparr>]"
    using analyze_single [of "\<lparr>date = ymd 2024 1 1, flow = Some Medium\<rparr>" env n]
    by (simp add: isFlowLog_def)
  ultimately show ?thesis unfolding formatDateISO_east [OF e] by simp
qed

section \<open>Projected periods and fertile windows\<close>

text \<open>
  Every step of the projection keeps the map exclusive: a period marker is written with
  both other flags false, and the fertile marker is written only where no period marker
  stands, so a period marker is never overwritten by it.
\<close>

lemma exclusive_empty: "exclusive Map.empty"
  by (simp add: exclusive_def)

lemma markPeriod_exclusive: "exclusive m \<Longrightarrow> exclusive (markPeriod env nextStart i m)"
  by (simp add: exclusive_def markPeriod_def Let_def)

lemma markFertile_exclusive: "exclusive m \<Longrightarrow> exclusive (markFertile env ov ofs m)"
  by (simp add: exclusive_def markFertile_def Let_def)

lemma markFertile_keeps_period:
  "m day = Some e \<Longrightarrow> isProjectedPeriod e \<Longrightarrow> markFertile env ov ofs m day = Some e"
  by (auto simp add: markFertile_def Let_def)

lemma fold_exclusive:
  "(\<And>x m. exclusive m \<Longrightarrow> exclusive (f x m)) \<Longrightarrow> exclusive m \<Longrightarrow> exclusive (fold f xs m)"
  by (induction xs arbitrary: m) simp_all

lemma fold_markFertile_keeps_period:
  "m day = Some e \<Longrightarrow> isProjectedPeriod e \<Longrightarrow>
   fold (markFertile env ov) xs m day = Some e"
  by (induction xs arbitrary: m) (simp_all add: markFertile_keeps_period)

lemma projectCycle_exclusive:
  "exclusive m \<Longrightarrow> exclusive (projectCycle env latestStart smartLength periodLen c m)"
  unfolding projectCycle_def Let_def
  by (intro fold_exclusive markFertile_exclusive markPeriod_exclusive)

lemma predictionData_exclusive: "exclusive (fst (predictionData env cycles settings))"
  unfolding predictionData_def Let_def
  by (auto intro!: fold_exclusive projectCycle_exclusive exclusive_empty)

text \<open>
  So, for every cycle list, all settings and every runtime, a date that the returned map
  marks as projected period is flagged neither fertile nor as the ovulation day.
\<close>

lemma predictionData_period_never_fertile:
  "fst (predictionData env cycles settings) day = Some e \<Longrightarrow> isProjectedPeriod e \<Longrightarrow>
   \<not> isFertile e \<and> \<not> isOvulationDay e"
  using predictionData_exclusive [of env cycles settings] unfolding exclusive_def by blast

lemma addLocalDays_fixedZone:
  "addLocalDays (fixedZone off) t n = t + n * 86400000"
  by (simp add: addLocalDays_def localTime_def fixedZone_def msPerDay_def)

text \<open>
  Claim C2, at the input where the code departs from it. For the anchor 2024-01-01, a
  smart length of 28 and a period length of 5, in a runtime five hours west of UTC, the
  projected period of the first cycle starts on 2024-01-28 and 2024-02-02 is not marked;
  the ovulation day is 2024-01-14 and 2024-01-16 is not marked. The claim names
  2024-01-29..2024-02-02, 2024-01-15 and 2024-01-10..2024-01-16.
\<close>

theorem predictionData_west_of_UTC:
  "fst (predictionData (fixedZone 300) [\<lparr>startDate = ymd 2024 1 1, lengthDays = 28\<rparr>]
          \<lparr>avgCycleLength = 28, avgPeriodLength = 5\<rparr>) (ymd 2024 1 28)
     = Some \<lparr>isProjectedPeriod = True, isFertile = False, isOvulationDay = False\<rparr>
   \<and> fst (predictionData (fixedZone 300) [\<lparr>startDate = ymd 2024 1 1, lengthDays = 28\<rparr>]
          \<lparr>avgCycleLength = 28, avgPeriodLength = 5\<rparr>) (ymd 2024 2 2) = None
   \<and> fst (predictionData (fixedZone 300) [\<lparr>startDate = ymd 2024 1 1, lengthDays = 28\<rparr>]
          \<lparr>avgCycleLength = 28, avgPeriodLength = 5\<rparr>) (ymd 2024 1 14)
     = Some \<lparr>isProjectedPeriod = False, isFertile = True, isOvulationDay = True\<rparr>
   \<and> fst (predictionData (fixedZone 300) [\<lparr>startDate = ymd 2024 1 1, lengthDays = 28\<rparr>]
          \<lparr>avgCycleLength = 28, avgPeriodLength = 5\<rparr>) (ymd 2024 1 16) = None"
  by code_simp

text \<open>
  In a zone of fixed offset whose local time is UTC or ahead of it, the projection is the
  one made at UTC, and there the dates are those of the claim: fertile markers on
  2024-01-10..2024-01-16 with the ovulation day on 2024-01-15, period markers on
  2024-01-29..2024-02-02, and nothing on the days next to the two ranges.
\<close>

lemma addLocalDays_newDate:
  "addLocalDays (fixedZone off) (newDate x) n = newDate (x + n)"
  by (simp add: addLocalDays_fixedZone newDate_def msPerDay_def algebra_simps)

lemma markPeriod_east:
  assumes "eastOfUTC (fixedZone off)"
  shows "markPeriod (fixedZone off) (newDate x) i m =
           m(x + i \<mapsto> \<lparr>isProjectedPeriod = True, isFertile = False, isOvulationDay = False\<rparr>)"
  unfolding markPeriod_def Let_def addLocalDays_newDate formatDateISO_east [OF assms] ..

lemma markFertile_east:
  assumes "eastOfUTC (fixedZone off)"
  shows "markFertile (fixedZone off) (newDate x) ofs m =
           (if \<not> (case m (x + ofs) of None \<Rightarrow> False | Some e \<Rightarrow> isProjectedPeriod e) then
              m(x + ofs \<mapsto> \<lparr>isProjectedPeriod = False, isFertile = True, isOvulationDay = (ofs = 0)\<rparr>)
            else m)"
  unfolding markFertile_def Let_def addLocalDays_newDate formatDateISO_east [OF assms] ..

lemma projectCycle_east:
  assumes "eastOfUTC (fixedZone off)"
  shows "projectCycle (fixedZone off) (newDate x) smartLength periodLen c m =
           projectCycle (fixedZone 0) (newDate x) smartLength periodLen c m"
proof -
  have u: "eastOfUTC (fixedZone 0)" by (simp add: eastOfUTC_fixedZone)
  have p: "markPeriod (fixedZone off) (newDate y) = markPeriod (fixedZone 0) (newDate y)" for y
    by (intro ext) (simp only: markPeriod_east [OF assms] markPeriod_east [OF u])
  have f: "markFertile (fixedZone off) (newDate y) = markFertile (fixedZone 0) (newDate y)" for y
    by (intro ext) (simp only: markFertile_east [OF assms] markFertile_east [OF u])
  show ?thesis unfolding projectCycle_def Let_def addLocalDays_newDate p f ..
qed

lemma predictionData_east:
  assumes "eastOfUTC (fixedZone off)"
  shows "predictionData (fixedZone off) cycles settings = predictionData (fixedZone 0) cycles settings"
proof -
  have "projectCycle (fixedZone off) (newDate x) smartLength periodLen
          = projectCycle (fixedZone 0) (newDate x) smartLength periodLen" for x smartLength periodLen
    by (intro ext) (simp only: projectCycle_east [OF assms])
  then show ?thesis unfolding predictionData_def Let_def by simp
qed

lemma predictionData_example_UTC:
  "map (fst (predictionData (fixedZone 0) [\<lparr>startDate = ymd 2024 1 1, lengthDays = 28\<rparr>]
               \<lparr>avgCycleLength = 28, avgPeriodLength = 5\<rparr>))
       [ymd 2024 1 9, ymd 2024 1 10, ymd 2024 1 11, ymd 2024 1 12, ymd 2024 1 13, ymd 2024 1 14,
        ymd 2024 1 15, ymd 2024 1 16, ymd 2024 1 17]
     = [None,
        Some \<lparr>isProjectedPeriod = False, isFertile = True, isOvulationDay = False\<rparr>,
        Some \<lparr>isProjectedPeriod = False, isFertile = True, isOvulationDay = False\<rparr>,
        Some \<lparr>isProjectedPeriod = False, isFertile = True, isOvulationDay = False\<rparr>,
        Some \<lparr>isProjectedPeriod = False, isFertile = True, isOvulationDay = False\<rparr>,
        Some \<lparr>isProjectedPeriod = False, isFertile = True, isOvulationDay = False\<rparr>,
        Some \<lparr>isProjectedPeriod = False, isFertile = True, isOvulationDay = True\<rparr>,
        Some \<lparr>isProjectedPeriod = False, isFertile = True, isOvulationDay = False\<rparr>,
        None]
   \<and> map (fst (predictionData (fixedZone 0) [\<lparr>startDate = ymd 2024 1 1, lengthDays = 28\<rparr>]
               \<lparr>avgCycleLength = 28, avgPeriodLength = 5\<rparr>))
       [ymd 2024 1 28, ymd 2024 1 29, ymd 2024 1 30, ymd 2024 1 31, ymd 2024 2 1, ymd 2024 2 2,
        ymd 2024 2 3]
     = [None,
        Some \<lparr>isProjectedPeriod = True, isFertile = False, isOvulationDay = False\<rparr>,
        Some \<lparr>isProjectedPeriod = True, isFertile = False, isOvulationDay = False\<rparr>,
        Some \<lparr>isProjectedPeriod = True, isFertile = False, isOvulationDay = False\<rparr>,
        Some \<lparr>isProjectedPeriod = True, isFertile = False, isOvulationDay = False\<rparr>,
        Some \<lparr>isProjectedPeriod = True, isFertile = False, isOvulationDay = False\<rparr>,
        None]"
  by code_simp

section \<open>The phase decision tree\<close>

lemma wheelStatus_future:
  "daysDiff < 0 \<Longrightarrow> wheelStatus daysDiff cycleLen periodLen =
     \<lparr>isFuture = True, cycleDay = 1, daysLeft = cycleLen - 1,
      statusText = ''Not Started'', subText = StartsIn \<bar>daysDiff\<bar>\<rparr>"
  by (simp add: wheelStatus_def Let_def)

lemma wheelStatus_started:
  "0 \<le> daysDiff \<Longrightarrow> wheelStatus daysDiff cycleLen periodLen =
     \<lparr>isFuture = False, cycleDay = daysDiff + 1, daysLeft = cycleLen - (daysDiff + 1),
      statusText =
        (if cycleLen - (daysDiff + 1) < 0 then ''Late''
         else if daysDiff + 1 \<le> periodLen then ''Menstruation''
         else if \<bar>daysDiff + 1 - (cycleLen - 14)\<bar> \<le> 2 then ''Fertile Window''
         else if daysDiff + 1 > cycleLen - 14 + 2 then ''Luteal Phase''
         else ''Follicular Phase''),
      subText =
        (if cycleLen - (daysDiff + 1) < 0 then DaysLate \<bar>cycleLen - (daysDiff + 1)\<bar>
         else if daysDiff + 1 \<le> periodLen then DayNumber (daysDiff + 1)
         else if \<bar>daysDiff + 1 - (cycleLen - 14)\<bar> \<le> 2 then HighChance
         else if daysDiff + 1 > cycleLen - 14 + 2 then DaysUntilPeriod (cycleLen - (daysDiff + 1))
         else DayNumber (daysDiff + 1))\<rparr>"
  by (simp add: wheelStatus_def max_def Let_def)

text \<open>
  Claim C4. The classifier is a decision tree read top to bottom. When \<open>daysDiff\<close> is
  negative the status is Not Started and the days until the start are \<open>|daysDiff|\<close>.
  Otherwise the cycle day is \<open>daysDiff + 1\<close>, the days left are the cycle length minus the
  cycle day, and exactly one status holds, each under its own test and the failure of all
  tests before it: Late (days left negative), Menstruation (cycle day at most the period
  length), Fertile Window (cycle day within 2 of cycle length minus 14), Luteal Phase
  (cycle day beyond cycle length minus 14 plus 2), Follicular Phase. In particular, on a
  day that is not late, a cycle day equal to the period length is Menstruation, and the
  day after it is Follicular Phase when it is outside the fertile and luteal windows.
\<close>

theorem wheelStatus_decision_tree:
  "(daysDiff < 0 \<longrightarrow>
      statusText (wheelStatus daysDiff cycleLen periodLen) = ''Not Started''
      \<and> subText (wheelStatus daysDiff cycleLen periodLen) = StartsIn \<bar>daysDiff\<bar>)
   \<and> (0 \<le> daysDiff \<longrightarrow>
      (let r = wheelStatus daysDiff cycleLen periodLen;
           cd = daysDiff + 1;
           dl = cycleLen - cd
       in cycleDay r = cd \<and> daysLeft r = dl
          \<and> (statusText r = ''Late'' \<longleftrightarrow> dl < 0)
          \<and> (statusText r = ''Menstruation'' \<longleftrightarrow> \<not> dl < 0 \<and> cd \<le> periodLen)
          \<and> (statusText r = ''Fertile Window'' \<longleftrightarrow>
                \<not> dl < 0 \<and> \<not> cd \<le> periodLen \<and> \<bar>cd - (cycleLen - 14)\<bar> \<le> 2)
          \<and> (statusText r = ''Luteal Phase'' \<longleftrightarrow>
                \<not> dl < 0 \<and> \<not> cd \<le> periodLen \<and> \<not> \<bar>cd - (cycleLen - 14)\<bar> \<le> 2
                \<and> cd > cycleLen - 14 + 2)
          \<and> (statusText r = ''Follicular Phase'' \<longleftrightarrow>
                \<not> dl < 0 \<and> \<not> cd \<le> periodLen \<and> \<not> \<bar>cd - (cycleLen - 14)\<bar> \<le> 2
                \<and> \<not> cd > cycleLen - 14 + 2)
          \<and> statusText r \<noteq> ''Not Started''))
   \<and> (0 \<le> daysDiff \<and> daysDiff + 1 \<le> cycleLen \<and> daysDiff + 1 = periodLen \<longrightarrow>
        statusText (wheelStatus daysDiff cycleLen periodLen) = ''Menstruation'')
   \<and> (0 \<le> daysDiff \<and> daysDiff + 1 \<le> cycleLen \<and> daysDiff + 1 = periodLen + 1
        \<and> \<not> \<bar>daysDiff + 1 - (cycleLen - 14)\<bar> \<le> 2 \<and> \<not> daysDiff + 1 > cycleLen - 14 + 2 \<longrightarrow>
        statusText (wheelStatus daysDiff cycleLen periodLen) = ''Follicular Phase'')"
proof (cases "daysDiff < 0")
  case True
  then show ?thesis by (simp add: wheelStatus_future)
next
  case False
  then have nn: "0 \<le> daysDiff" by simp
  show ?thesis
    unfolding Let_def wheelStatus_started [OF nn] using nn by simp arith
qed

text \<open>
  With a cycle length of 28 and a period length of 5: three days before the start the
  status is Not Started with 3 days to go; cycle day 5 is Menstruation and cycle day 6 is
  Follicular Phase.
\<close>

theorem wheelStatus_decision_tree_witness:
  "statusText (wheelStatus (- 3) 28 5) = ''Not Started''
   \<and> subText (wheelStatus (- 3) 28 5) = StartsIn 3
   \<and> cycleDay (wheelStatus 4 28 5) = 5
   \<and> statusText (wheelStatus 4 28 5) = ''Menstruation''
   \<and> statusText (wheelStatus 5 28 5) = ''Follicular Phase''"
  using wheelStatus_decision_tree [of "- 3" 28 5] wheelStatus_decision_tree [of 4 28 5]
    wheelStatus_decision_tree [of 5 28 5]
  by (simp add: Let_def)

end
